theory Spec2Isabelle
  imports Complex_Main
begin

section \<open>Data model of the simulator (README.md, second listing: the App component)\<close>

text \<open>
  The engine is the React component \<open>App\<close>: its \<open>useState\<close> cells are the engine state,
  \<open>runInitialization\<close> and \<open>signAndSend\<close> are its two operations. An operation reads the
  cells through the closure of the render it was created in, so every read of a cell
  inside one call sees the value the cell had when the call started; the setters are
  applied in program order, a functional setter (\<open>prev => ...\<close>) to the latest value.
  The \<open>await sleep(...)\<close> calls only pace the animation and are left out: one call is
  modelled as one state transformer.

  Bits are the JavaScript numbers 0 and 1. Every \<open>Math.random()\<close> call reads the next
  entry of an injected sequence of draws from [0,1); the position of the next unread
  draw is passed along and returned. Numbers that the source computes in floating
  point (the noise index, the QBER quotient) are rationals here.
\<close>

type_synonym bit = nat
type_synonym rng = "nat \<Rightarrow> rat"

datatype basis = Z | X

datatype channel_mode = perfect | noisy

datatype sender = alice | bob

datatype side = SideLeft | SideRight

text \<open>Contents of the packets shown on the two channels; the data interpolated into
  the label is kept, its rendering as text is not.\<close>

datatype pkt =
    PktQubit char
  | PktDetected "nat list"
  | PktBases "basis list"
  | PktSampleIndices "nat list"
  | PktSampleAlice "bit list"
  | PktSampleBob "bit list"
  | PktEC
  | PktPhi string
  | PktP
  | PktS
  | PktID

record packet =
  content :: pkt
  start :: side
  duration :: int

text \<open>The texts of \<open>currentStatus\<close>, one constructor per literal of the source.\<close>

datatype status =
    StNotStarted
  | StStopped
  | StEavesdropping
  | StInitStarted
  | StChoosing
  | StSending nat
  | StRevealing
  | StSiftingDone nat
  | StSelectingSample
  | StQberSample rat
  | StEavesdropAbort
  | StHighQberAbort
  | StNotEnoughSifted
  | StErrorCorrection
  | StDerivingKey
  | StKeyDerived nat
  | StGeneratingPhi
  | StPhiSelected
  | StInitComplete
  | StInitCompleteTamper
  | StConvertingP
  | StComputingS
  | StBobComputes
  | StTamperDuringQIBS
  | StSignatureAccepted

text \<open>Entries of the event log. The source prefixes each entry with the wall-clock
  time; the prefix is left out.\<close>

datatype log_entry =
    LogText status
  | LogPhi rat string
  | LogDataCollected int
  | LogEncodedP
  | LogKeyEstablished nat
  | LogDetectProb nat rat
  | LogEavesdropDetected rat nat
  | LogHighQber rat
  | LogPhiDelivered string
  | LogComputedS
  | LogSentP
  | LogSentS
  | LogSentID
  | LogTamperQIBS
  | LogAccepted
  | LogTamperEngaged

datatype fake_details = FdPhi rat string | FdPreP int | FdKey nat

text \<open>The \<open>text\<close> field of Alice's and Bob's panels.\<close>

datatype party_text =
    TxIdle
  | TxPreparing
  | TxWaiting
  | TxChoosingBases
  | TxMeasuring nat basis
  | TxMeasured nat bit
  | TxAllSent
  | TxAllMeasured
  | TxReporting
  | TxSiftingDone nat
  | TxPreparingSample
  | TxAbortedEavesdrop
  | TxAbortedHighQber
  | TxApplyingCorrections
  | TxKey string
  | TxSendingPhi string
  | TxReceivedPhi string
  | TxInitComplete
  | TxInitCompleteBob
  | TxPhiWithheld
  | TxComputingS
  | TxComputedS
  | TxReceivedP
  | TxReceivedSID
  | TxDecrypting
  | TxVerifyFailed
  | TxSigTamper
  | TxVerifyComplete
  | TxSigSent

record alice_state =
  a_bits :: "bit list"
  a_bases :: "basis list"
  a_text :: party_text
  a_memoryVisible :: bool
  a_phi :: string

record bob_state =
  b_bases :: "basis list"
  b_results :: "bit list"
  b_text :: party_text
  b_memoryVisible :: bool
  b_phi :: string

record sifted_state =
  s_indices :: "nat list"
  s_aliceBits :: "bit list"
  s_bobBits :: "bit list"

record sample_entry =
  r_index :: nat
  r_alice :: bit
  r_bob :: bit

text \<open>
  The state cells of \<open>App\<close>. The three numeric parameters hold a JavaScript number set
  from a numeric text field; a cell is modelled by what \<open>parseInt(cell, 10)\<close> yields,
  \<open>None\<close> for NaN. \<open>classicalCh\<close> and \<open>quantumCh\<close> are the two channel refs: \<open>None\<close> while
  no channel component is attached, otherwise the packets handed to \<open>sendPacket\<close> so
  far, oldest first.
\<close>

record app_state =
  running :: bool
  qkdRunning :: bool
  qkdDone :: bool
  channelMode :: "channel_mode option"
  noiseIndex :: rat
  noiseLocked :: bool
  aliceState :: alice_state
  bobState :: bob_state
  sifted :: sifted_state
  revealedSample :: "sample_entry list"
  qber :: "rat option"
  sharedKey :: "string option"
  qkdN :: "int option"
  pulseIntervalMs :: "int option"
  qberSampleSize :: "int option"
  tampering :: bool
  signRunning :: bool
  currentStatus :: status
  logs :: "log_entry list"
  classicalCh :: "packet list option"
  quantumCh :: "packet list option"

section \<open>Helper utilities\<close>

definition randBit :: "rat \<Rightarrow> bit" where
  "randBit r = (if r < 1 / 2 then 0 else 1)"

definition randBasis :: "rat \<Rightarrow> basis" where
  "randBasis r = (if r < 1 / 2 then Z else X)"

text \<open>\<open>parseInt(v, 10) || d\<close>: NaN and 0 are falsy and yield the default.\<close>

definition parse_or :: "int option \<Rightarrow> int \<Rightarrow> int" where
  "parse_or v d = (case v of None \<Rightarrow> d | Some n \<Rightarrow> if n = 0 then d else n)"

definition bit_char :: "bit \<Rightarrow> char" where
  "bit_char b = (if b = 0 then CHR ''0'' else CHR ''1'')"

definition addLog :: "log_entry \<Rightarrow> app_state \<Rightarrow> app_state" where
  "addLog entry s = s\<lparr>logs := logs s @ [entry]\<rparr>"

definition updateStatus :: "status \<Rightarrow> bool \<Rightarrow> fake_details option \<Rightarrow> app_state \<Rightarrow> app_state" where
  "updateStatus text shouldLog fakeDetails s =
     (let s1 = s\<lparr>currentStatus := text\<rparr> in
      if shouldLog then
        (case fakeDetails of
           Some (FdPhi rawPhi encrypted) \<Rightarrow> addLog (LogPhi rawPhi encrypted) s1
         | Some (FdPreP preimage) \<Rightarrow> addLog LogEncodedP (addLog (LogDataCollected preimage) s1)
         | Some (FdKey len) \<Rightarrow> addLog (LogKeyEstablished len) s1
         | None \<Rightarrow> addLog (LogText text) s1)
      else s1)"

definition sendClassical :: "pkt \<Rightarrow> sender \<Rightarrow> int \<Rightarrow> app_state \<Rightarrow> app_state" where
  "sendClassical c sndr d s =
     (case classicalCh s of
        None \<Rightarrow> s
      | Some ps \<Rightarrow>
          s\<lparr>classicalCh :=
              Some (ps @ [\<lparr>content = c, start = (if sndr = alice then SideLeft else SideRight),
                           duration = d\<rparr>])\<rparr>)"

definition sendQuantum :: "pkt \<Rightarrow> int \<Rightarrow> app_state \<Rightarrow> app_state" where
  "sendQuantum c d s =
     (case quantumCh s of
        None \<Rightarrow> s
      | Some ps \<Rightarrow> s\<lparr>quantumCh := Some (ps @ [\<lparr>content = c, start = SideLeft, duration = d\<rparr>])\<rparr>)"

definition setAliceText :: "party_text \<Rightarrow> app_state \<Rightarrow> app_state" where
  "setAliceText t s = s\<lparr>aliceState := (aliceState s)\<lparr>a_text := t\<rparr>\<rparr>"

definition setBobText :: "party_text \<Rightarrow> app_state \<Rightarrow> app_state" where
  "setBobText t s = s\<lparr>bobState := (bobState s)\<lparr>b_text := t\<rparr>\<rparr>"

section \<open>runInitialization\<close>

subsection \<open>Step 1: Alice prepares qubits (lines 802-807)\<close>

function prepare_loop ::
  "rng \<Rightarrow> nat \<Rightarrow> nat \<Rightarrow> nat \<Rightarrow> bit list \<Rightarrow> basis list \<Rightarrow> nat \<times> bit list \<times> basis list" where
  "prepare_loop rng N i p aliceBits aliceBases =
     (if i < N then
        prepare_loop rng N (Suc i) (p + 2)
          (aliceBits @ [randBit (rng p)]) (aliceBases @ [randBasis (rng (p + 1))])
      else (p, aliceBits, aliceBases))"
  by pat_completeness auto
termination
  by (relation "measure (\<lambda>(rng, N, i, p, aliceBits, aliceBases). N - i)") auto

declare prepare_loop.simps [simp del]

subsection \<open>Step 2: Bob measures (lines 816-856)\<close>

definition qubit_label :: "basis \<Rightarrow> bit \<Rightarrow> char" where
  "qubit_label aBasis aBit =
     (if aBasis = Z then (if aBit = 0 then CHR ''0'' else CHR ''1'')
      else (if aBit = 0 then CHR ''+'' else CHR ''-''))"

text \<open>Lines 833-843: the noise test reads one draw; a random outcome reads one more.
  The result is the outcome and the position of the next unread draw.\<close>

definition noisy_outcome :: "rng \<Rightarrow> nat \<Rightarrow> rat \<Rightarrow> basis \<Rightarrow> basis \<Rightarrow> bit \<Rightarrow> bit \<times> nat" where
  "noisy_outcome rng p noise bB aBasis aBit =
     (if rng p < noise then (randBit (rng (p + 1)), p + 2)
      else if bB = aBasis then (aBit, p + 1)
      else (randBit (rng (p + 1)), p + 2))"

text \<open>Lines 846-851: the tamper layer. No draw is read unless tampering is on.\<close>

definition tamper_layer :: "rng \<Rightarrow> nat \<Rightarrow> bool \<Rightarrow> bit \<Rightarrow> nat \<Rightarrow> bit \<times> nat \<times> nat" where
  "tamper_layer rng p tamp y tamperIntroducedCount =
     (if tamp then
        (if rng p < 1 / 2 then (1 - y, tamperIntroducedCount + 1, p + 1)
         else (y, tamperIntroducedCount, p + 1))
      else (y, tamperIntroducedCount, p))"

text \<open>One iteration of the measuring loop. The loop state is the engine state, the
  draw position, \<open>bobBases\<close>, \<open>bobResults\<close> and \<open>tamperIntroducedCount\<close>. \<open>aliceBits\<close> and
  \<open>aliceBases\<close> hold \<open>N\<close> entries when the loop runs (\<open>prepare_loop\<close> pushed one per index),
  so the reads at \<open>i < N\<close> are in range.\<close>

definition measure_body ::
  "rng \<Rightarrow> rat \<Rightarrow> bool \<Rightarrow> int \<Rightarrow> bit list \<Rightarrow> basis list \<Rightarrow> nat \<Rightarrow>
   app_state \<times> nat \<times> basis list \<times> bit list \<times> nat \<Rightarrow>
   app_state \<times> nat \<times> basis list \<times> bit list \<times> nat" where
  "measure_body rng noise tamp pulseInterval aliceBits aliceBases i acc =
     (case acc of (s, p, bobBases, bobResults, tamperIntroducedCount) \<Rightarrow>
        let bB = randBasis (rng p);
            s1 = s\<lparr>bobState := (bobState s)\<lparr>b_bases := b_bases (bobState s) @ [bB],
                                               b_text := TxMeasuring (i + 1) bB\<rparr>\<rparr>;
            s2 = sendQuantum (PktQubit (qubit_label (aliceBases ! i) (aliceBits ! i)))
                   (max 100 (pulseInterval - 100)) s1;
            (y0, p1) = noisy_outcome rng (p + 1) noise bB (aliceBases ! i) (aliceBits ! i);
            (y, cnt, p2) = tamper_layer rng p1 tamp y0 tamperIntroducedCount;
            s3 = s2\<lparr>bobState := (bobState s2)\<lparr>b_results := b_results (bobState s2) @ [y],
                                                 b_text := TxMeasured (i + 1) y\<rparr>\<rparr>
        in (s3, p2, bobBases @ [bB], bobResults @ [y], cnt))"

function measure_loop ::
  "rng \<Rightarrow> rat \<Rightarrow> bool \<Rightarrow> int \<Rightarrow> bit list \<Rightarrow> basis list \<Rightarrow> nat \<Rightarrow> nat \<Rightarrow>
   app_state \<times> nat \<times> basis list \<times> bit list \<times> nat \<Rightarrow>
   app_state \<times> nat \<times> basis list \<times> bit list \<times> nat" where
  "measure_loop rng noise tamp pulseInterval aliceBits aliceBases N i acc =
     (if i < N then
        measure_loop rng noise tamp pulseInterval aliceBits aliceBases N (Suc i)
          (measure_body rng noise tamp pulseInterval aliceBits aliceBases i acc)
      else acc)"
  by pat_completeness auto
termination
  by (relation "measure (\<lambda>(rng, noise, tamp, pulseInterval, aliceBits, aliceBases, N, i, acc). N - i)")
     auto

declare measure_loop.simps [simp del]

subsection \<open>Step 4: sifting (lines 877-886)\<close>

text \<open>The four arrays hold \<open>N\<close> entries each when the loop runs.\<close>

function sift_loop ::
  "nat \<Rightarrow> nat \<Rightarrow> basis list \<Rightarrow> basis list \<Rightarrow> bit list \<Rightarrow> bit list \<Rightarrow>
   nat list \<times> bit list \<times> bit list \<Rightarrow> nat list \<times> bit list \<times> bit list" where
  "sift_loop N i aliceBases bobBases aliceBits bobResults acc =
     (if i < N then
        sift_loop N (Suc i) aliceBases bobBases aliceBits bobResults
          (case acc of (keepIndices, aBitsSifted, bBitsSifted) \<Rightarrow>
             if aliceBases ! i = bobBases ! i then
               (keepIndices @ [i], aBitsSifted @ [aliceBits ! i], bBitsSifted @ [bobResults ! i])
             else acc)
      else acc)"
  by pat_completeness auto
termination
  by (relation "measure (\<lambda>(N, i, aliceBases, bobBases, aliceBits, bobResults, acc). N - i)") auto

declare sift_loop.simps [simp del]

subsection \<open>Step 5: the revealed sample and its error rate (lines 900-915)\<close>

definition sample_of :: "nat \<Rightarrow> nat list \<Rightarrow> bit list \<Rightarrow> bit list \<Rightarrow> sample_entry list" where
  "sample_of sampleSize keepIndices aliceBits bobResults =
     (let sampleIndices = take sampleSize keepIndices
      in map (\<lambda>i. \<lparr>r_index = i, r_alice = aliceBits ! i, r_bob = bobResults ! i\<rparr>) sampleIndices)"

definition sample_errors :: "sample_entry list \<Rightarrow> nat" where
  "sample_errors sampleReveal = length (filter (\<lambda>e. r_alice e \<noteq> r_bob e) sampleReveal)"

definition sample_qber :: "sample_entry list \<Rightarrow> rat" where
  "sample_qber sampleReveal =
     (if length sampleReveal > 0
      then of_nat (sample_errors sampleReveal) / of_nat (length sampleReveal) else 0)"

subsection \<open>The run\<close>

text \<open>Where a call of \<open>runInitialization\<close> returned: at the guard of line 773, at one
  of the two aborts of lines 936 and 946, or at the end of the function, after the
  branch of line 987 (\<open>RunCompleted\<close>) or that of line 1012 (\<open>RunPhiWithheld\<close>).\<close>

datatype run_outcome =
    RunRejected
  | AbortedEavesdrop
  | AbortedHighQber
  | RunCompleted
  | RunPhiWithheld

text \<open>Lines 774-801: the setters before the first loop.\<close>

definition run_begin :: "app_state \<Rightarrow> app_state" where
  "run_begin s =
     (let s1 = s\<lparr>qkdRunning := True\<rparr>;
          s2 = s1\<lparr>qkdDone := False\<rparr>;
          s3 = s2\<lparr>sharedKey := None\<rparr>;
          s4 = s3\<lparr>logs := []\<rparr>;
          s5 = updateStatus StInitStarted True None s4;
          s6 = s5\<lparr>noiseLocked := True\<rparr>;
          s7 = s6\<lparr>aliceState := \<lparr>a_bits = [], a_bases = [], a_text = TxPreparing,
                                  a_memoryVisible = True, a_phi = []\<rparr>\<rparr>;
          s8 = s7\<lparr>bobState := \<lparr>b_bases = [], b_results = [], b_text = TxWaiting,
                                b_memoryVisible = True, b_phi = []\<rparr>\<rparr>;
          s9 = s8\<lparr>sifted := \<lparr>s_indices = [], s_aliceBits = [], s_bobBits = []\<rparr>\<rparr>;
          s10 = s9\<lparr>revealedSample := []\<rparr>;
          s11 = s10\<lparr>qber := None\<rparr>
      in updateStatus StChoosing False None s11)"

text \<open>Lines 929-936 and 939-946: the two aborts.\<close>

definition abort_eavesdrop :: "rat \<Rightarrow> nat \<Rightarrow> app_state \<Rightarrow> app_state" where
  "abort_eavesdrop q tamperIntroducedCount s =
     (let s1 = addLog (LogEavesdropDetected q tamperIntroducedCount) s;
          s2 = updateStatus StEavesdropAbort True None s1;
          s3 = setAliceText TxAbortedEavesdrop s2;
          s4 = setBobText TxAbortedEavesdrop s3;
          s5 = s4\<lparr>noiseLocked := False\<rparr>;
          s6 = s5\<lparr>qkdRunning := False\<rparr>
      in s6\<lparr>qkdDone := False\<rparr>)"

definition abort_high_qber :: "rat \<Rightarrow> app_state \<Rightarrow> app_state" where
  "abort_high_qber q s =
     (let s1 = addLog (LogHighQber q) s;
          s2 = updateStatus StHighQberAbort True None s1;
          s3 = setAliceText TxAbortedHighQber s2;
          s4 = setBobText TxAbortedHighQber s3;
          s5 = s4\<lparr>noiseLocked := False\<rparr>;
          s6 = s5\<lparr>qkdRunning := False\<rparr>
      in s6\<lparr>qkdDone := False\<rparr>)"

text \<open>Lines 973-974: \<open>desiredLen\<close> calls of \<open>randBit\<close>, joined into a string.\<close>

definition key_bits :: "rng \<Rightarrow> nat \<Rightarrow> nat \<Rightarrow> string" where
  "key_bits rng p desiredLen = map (\<lambda>k. bit_char (randBit (rng (p + k)))) [0..<desiredLen]"

definition key_display :: "string \<Rightarrow> string" where
  "key_display simulatedKeyBits =
     (if simulatedKeyBits \<noteq> [] then
        (if length simulatedKeyBits > 20 then take 20 simulatedKeyBits @ ''...''
         else simulatedKeyBits)
      else ''(empty)'')"

text \<open>Line 991: six draws, each turned into a character.\<close>

definition phi_token :: "rng \<Rightarrow> nat \<Rightarrow> string" where
  "phi_token rng p = map (\<lambda>k. if rng (p + k) < 1 / 2 then CHR ''0'' else CHR ''1'') [0..<6]"

text \<open>Lines 955-1020: error correction, key derivation and the \<phi> exchange. The raw \<phi>
  of line 990 is the draw times 2\<pi>, printed with four decimals; the log entry keeps the
  draw.\<close>

definition run_finish ::
  "rng \<Rightarrow> nat \<Rightarrow> nat \<Rightarrow> int \<Rightarrow> bool \<Rightarrow> bit list \<Rightarrow> app_state \<Rightarrow> app_state \<times> nat \<times> run_outcome" where
  "run_finish rng p N pulseInterval tamp aBitsSifted s =
     (let s1 = updateStatus StErrorCorrection False None s;
          s2 = setBobText TxApplyingCorrections s1;
          correctedBobBits = aBitsSifted;
          s3 = s2\<lparr>sifted := (sifted s2)\<lparr>s_bobBits := correctedBobBits\<rparr>\<rparr>;
          s4 = sendClassical PktEC alice pulseInterval s3;
          s5 = updateStatus StDerivingKey False None s4;
          desiredLen = max (2 * N) (max 0 (length aBitsSifted));
          simulatedKeyBits = key_bits rng p desiredLen;
          p1 = p + desiredLen;
          s6 = s5\<lparr>sharedKey := Some simulatedKeyBits\<rparr>;
          s7 = updateStatus (StKeyDerived (length simulatedKeyBits)) True
                 (Some (FdKey (length simulatedKeyBits))) s6;
          s8 = setAliceText (TxKey (key_display simulatedKeyBits)) s7;
          s9 = setBobText (TxKey (key_display simulatedKeyBits)) s8
      in if \<not> tamp then
           (let s10 = updateStatus StGeneratingPhi True None s9;
                rawPhi = rng p1;
                phiEncrypted = phi_token rng (p1 + 1);
                s11 = updateStatus StPhiSelected True (Some (FdPhi rawPhi phiEncrypted)) s10;
                s12 = s11\<lparr>aliceState := (aliceState s11)\<lparr>a_phi := phiEncrypted,
                                                           a_text := TxSendingPhi phiEncrypted\<rparr>\<rparr>;
                s13 = sendQuantum (PktPhi phiEncrypted) (pulseInterval * 2) s12;
                s14 = s13\<lparr>bobState := (bobState s13)\<lparr>b_phi := phiEncrypted,
                                                       b_text := TxReceivedPhi phiEncrypted\<rparr>\<rparr>;
                s15 = addLog (LogPhiDelivered phiEncrypted) s14;
                s16 = updateStatus StInitComplete True None s15;
                s17 = setAliceText TxInitComplete s16;
                s18 = setBobText TxInitCompleteBob s17;
                s19 = s18\<lparr>noiseLocked := False\<rparr>;
                s20 = s19\<lparr>qkdRunning := False\<rparr>
            in (s20\<lparr>qkdDone := True\<rparr>, p1 + 7, RunCompleted))
         else
           (let s10 = updateStatus StInitCompleteTamper True None s9;
                s11 = setAliceText TxPhiWithheld s10;
                s12 = setBobText TxPhiWithheld s11;
                s13 = s12\<lparr>noiseLocked := False\<rparr>;
                s14 = s13\<lparr>qkdRunning := False\<rparr>
            in (s14\<lparr>qkdDone := False\<rparr>, p1, RunPhiWithheld)))"

text \<open>Lines 895-953: the sample, its error rate and the abort decision.\<close>

definition run_estimate ::
  "rng \<Rightarrow> nat \<Rightarrow> nat \<Rightarrow> int \<Rightarrow> nat \<Rightarrow> bool \<Rightarrow> nat \<Rightarrow> bit list \<Rightarrow> bit list \<Rightarrow>
   nat list \<Rightarrow> bit list \<Rightarrow> app_state \<Rightarrow> app_state \<times> nat \<times> run_outcome" where
  "run_estimate rng p N pulseInterval sampleSize tamp tamperIntroducedCount aliceBits bobResults
       keepIndices aBitsSifted s =
     (let s1 = updateStatus StSelectingSample False None s;
          s2 = setBobText TxPreparingSample s1;
          sampleReveal = sample_of sampleSize keepIndices aliceBits bobResults;
          s3 = s2\<lparr>revealedSample := sampleReveal\<rparr>
      in if length sampleReveal > 0 then
           (let s4 = sendClassical (PktSampleIndices (map r_index sampleReveal)) alice pulseInterval s3;
                s5 = sendClassical (PktSampleAlice (map r_alice sampleReveal)) alice pulseInterval s4;
                s6 = sendClassical (PktSampleBob (map r_bob sampleReveal)) bob pulseInterval s5;
                q = sample_qber sampleReveal;
                s7 = s6\<lparr>qber := Some q\<rparr>;
                s8 = updateStatus (StQberSample q) False None s7;
                s9 = (if tamp then addLog (LogDetectProb N (1 - (1 / 2) ^ N)) s8 else s8)
            in if tamp then
                 (if q \<le> 45 / 100 then (abort_eavesdrop q tamperIntroducedCount s9, p, AbortedEavesdrop)
                  else (abort_high_qber q s9, p, AbortedHighQber))
               else run_finish rng p N pulseInterval tamp aBitsSifted s9)
         else
           (let s4 = s3\<lparr>qber := Some 0\<rparr>;
                s5 = updateStatus StNotEnoughSifted False None s4
            in run_finish rng p N pulseInterval tamp aBitsSifted s5))"

text \<open>The local constants and arrays of one call that are alive after sifting.\<close>

record run_vars =
  l_noise :: rat
  l_N :: nat
  l_pulseInterval :: int
  l_sampleSize :: nat
  l_aliceBits :: "bit list"
  l_aliceBases :: "basis list"
  l_bobBases :: "basis list"
  l_bobResults :: "bit list"
  l_tamperIntroducedCount :: nat
  l_keepIndices :: "nat list"
  l_aBitsSifted :: "bit list"
  l_bBitsSifted :: "bit list"

text \<open>Lines 785-791: the constants of one call. \<open>afterqubitPause\<close> is used for pacing
  only.\<close>

definition run_noise :: "app_state \<Rightarrow> rat" where
  "run_noise s = (if channelMode s = Some noisy then noiseIndex s else 0)"

definition run_N :: "app_state \<Rightarrow> nat" where
  "run_N s = nat (max 1 (parse_or (qkdN s) 5))"

definition run_pulseInterval :: "app_state \<Rightarrow> int" where
  "run_pulseInterval s = max 100 (parse_or (pulseIntervalMs s) 1000)"

definition run_sampleSize :: "app_state \<Rightarrow> nat" where
  "run_sampleSize s = nat (max 0 (parse_or (qberSampleSize s) 2))"

text \<open>Lines 774-892: from the first setter to the end of sifting. The result is the
  state, the position of the next unread draw and the locals.\<close>

definition run_front :: "rng \<Rightarrow> nat \<Rightarrow> app_state \<Rightarrow> app_state \<times> nat \<times> run_vars" where
  "run_front rng p s =
     (let noise = run_noise s;
          N = run_N s;
          pulseInterval = run_pulseInterval s;
          sampleSize = run_sampleSize s;
          s1 = run_begin s;
          (p1, aliceBits, aliceBases) = prepare_loop rng N 0 p [] [];
          s2 = s1\<lparr>aliceState := (aliceState s1)\<lparr>a_bits := aliceBits, a_bases := aliceBases\<rparr>\<rparr>;
          s3 = updateStatus (StSending N) False None s2;
          s4 = setBobText TxChoosingBases s3;
          (s5, p2, bobBases, bobResults, tamperIntroducedCount) =
             measure_loop rng noise (tampering s) pulseInterval aliceBits aliceBases N 0
               (s4, p1, [], [], 0);
          s6 = setAliceText TxAllSent s5;
          s7 = setBobText TxAllMeasured s6;
          s8 = setBobText TxReporting s7;
          detectedIndices = [0..<N];
          s9 = sendClassical (PktDetected detectedIndices) bob pulseInterval s8;
          s10 = sendClassical (PktBases bobBases) bob pulseInterval s9;
          s11 = updateStatus StRevealing False None s10;
          s12 = sendClassical (PktBases aliceBases) alice pulseInterval s11;
          (keepIndices, aBitsSifted, bBitsSifted) =
             sift_loop N 0 aliceBases bobBases aliceBits bobResults ([], [], []);
          s13 = s12\<lparr>sifted := \<lparr>s_indices = keepIndices, s_aliceBits = aBitsSifted,
                                 s_bobBits = bBitsSifted\<rparr>\<rparr>;
          s14 = updateStatus (StSiftingDone (length keepIndices)) False None s13;
          s15 = setBobText (TxSiftingDone (length keepIndices)) s14
      in (s15, p2,
          \<lparr>l_noise = noise, l_N = N, l_pulseInterval = pulseInterval, l_sampleSize = sampleSize,
           l_aliceBits = aliceBits, l_aliceBases = aliceBases, l_bobBases = bobBases,
           l_bobResults = bobResults, l_tamperIntroducedCount = tamperIntroducedCount,
           l_keepIndices = keepIndices, l_aBitsSifted = aBitsSifted,
           l_bBitsSifted = bBitsSifted\<rparr>))"

text \<open>Lines 772-1021: the guard, then the two halves.\<close>

definition runInitialization :: "rng \<Rightarrow> nat \<Rightarrow> app_state \<Rightarrow> app_state \<times> nat \<times> run_outcome" where
  "runInitialization rng p s =
     (if qkdRunning s then (s, p, RunRejected)
      else
        (case run_front rng p s of (s15, p2, v) \<Rightarrow>
           run_estimate rng p2 (l_N v) (l_pulseInterval v) (l_sampleSize v) (tampering s)
             (l_tamperIntroducedCount v) (l_aliceBits v) (l_bobResults v) (l_keepIndices v)
             (l_aBitsSifted v) s15))"

section \<open>signAndSend (lines 1030-1093)\<close>

datatype sign_outcome = SignRejected | SignTamperDetected | SignVerified

definition signAndSend :: "rng \<Rightarrow> nat \<Rightarrow> app_state \<Rightarrow> app_state \<times> nat \<times> sign_outcome" where
  "signAndSend rng p s =
     (if \<not> qkdDone s \<or> qkdRunning s \<or> signRunning s then (s, p, SignRejected)
      else
        let s1 = s\<lparr>signRunning := True\<rparr>;
            preimage = \<lfloor>rng p * 1000000\<rfloor>;
            s2 = updateStatus StConvertingP True (Some (FdPreP preimage)) s1;
            s3 = setAliceText TxComputingS s2;
            s4 = updateStatus StComputingS True None s3;
            s5 = addLog LogComputedS s4;
            s6 = setAliceText TxComputedS s5;
            s7 = sendQuantum PktP 2500 s6;
            s8 = addLog LogSentP s7;
            s9 = sendQuantum PktS 2500 s8;
            s10 = addLog LogSentS s9;
            s11 = sendQuantum PktID 2500 s10;
            s12 = addLog LogSentID s11;
            s13 = setBobText TxReceivedP s12;
            s14 = setBobText TxReceivedSID s13;
            s15 = updateStatus StBobComputes True None s14;
            s16 = setBobText TxDecrypting s15
        in if tampering s then
             (let s17 = setBobText TxVerifyFailed s16;
                  s18 = setAliceText TxSigTamper s17;
                  s19 = addLog LogTamperQIBS s18;
                  s20 = updateStatus StTamperDuringQIBS True None s19
              in (s20\<lparr>signRunning := False\<rparr>, p + 1, SignTamperDetected))
           else
             (let s17 = setBobText TxVerifyComplete s16;
                  s18 = setAliceText TxSigSent s17;
                  s19 = updateStatus StSignatureAccepted True None s18;
                  s20 = addLog LogAccepted s19
              in (s20\<lparr>signRunning := False\<rparr>, p + 1, SignVerified)))"

section \<open>The other handlers\<close>

text \<open>The initial values of the state cells (lines 656-711). No channel component is
  rendered before the simulation view opens.\<close>

definition initial_state :: app_state where
  "initial_state =
     \<lparr>running = False, qkdRunning = False, qkdDone = False, channelMode = None,
      noiseIndex = 1 / 10, noiseLocked = False,
      aliceState = \<lparr>a_bits = [], a_bases = [], a_text = TxIdle, a_memoryVisible = True,
                    a_phi = []\<rparr>,
      bobState = \<lparr>b_bases = [], b_results = [], b_text = TxIdle, b_memoryVisible = True,
                  b_phi = []\<rparr>,
      sifted = \<lparr>s_indices = [], s_aliceBits = [], s_bobBits = []\<rparr>,
      revealedSample = [], qber = None, sharedKey = None,
      qkdN = Some 5, pulseIntervalMs = Some 1000, qberSampleSize = Some 2,
      tampering = False, signRunning = False, currentStatus = StNotStarted, logs = [],
      classicalCh = None, quantumCh = None\<rparr>"

text \<open>The two start buttons (lines 1138 and 1141). Setting \<open>running\<close> renders the
  simulation view, which attaches the two channels.\<close>

definition start_simulation :: "channel_mode \<Rightarrow> app_state \<Rightarrow> app_state" where
  "start_simulation mode s =
     s\<lparr>channelMode := Some mode, noiseIndex := (if mode = perfect then 0 else 1 / 10),
       running := True, tampering := False, classicalCh := Some [], quantumCh := Some []\<rparr>"

text \<open>Lines 757-763.\<close>

definition handleTamperClick :: "app_state \<Rightarrow> app_state" where
  "handleTamperClick s =
     (if \<not> running s \<or> tampering s \<or> qkdRunning s \<or> signRunning s then s
      else
        let s1 = s\<lparr>tampering := True\<rparr>;
            s2 = updateStatus StEavesdropping True None s1
        in addLog LogTamperEngaged s2)"

section \<open>The measurement of one pulse, as the layers the design describes\<close>

text \<open>
  The layered description of one pulse, over the draws starting at position \<open>q\<close>: Bob's
  basis comes from the first draw; the second draw decides whether noise dominates; a
  fresh bit is drawn when noise dominates or the bases differ, otherwise the outcome is
  Alice's bit; only under tampering one more draw decides the flip. The result is
  Bob's basis, the outcome, whether the outcome was flipped, and the position of the
  first draw of the next pulse.
\<close>

definition layered_pulse ::
  "rng \<Rightarrow> rat \<Rightarrow> bool \<Rightarrow> basis \<Rightarrow> bit \<Rightarrow> nat \<Rightarrow> basis \<times> bit \<times> bool \<times> nat" where
  "layered_pulse rng noise tamp aBasis aBit q =
     (let bB = randBasis (rng q);
          fresh = (rng (q + 1) < noise \<or> bB \<noteq> aBasis);
          y0 = (if fresh then randBit (rng (q + 2)) else aBit);
          qt = (if fresh then q + 3 else q + 2);
          flip = (tamp \<and> rng qt < 1 / 2);
          y = (if flip then 1 - y0 else y0)
      in (bB, y, flip, if tamp then qt + 1 else qt))"

text \<open>The position of the first draw of pulse \<open>i\<close>, when the measuring loop starts at
  position \<open>p\<close>.\<close>

fun pulse_start :: "rng \<Rightarrow> rat \<Rightarrow> bool \<Rightarrow> bit list \<Rightarrow> basis list \<Rightarrow> nat \<Rightarrow> nat \<Rightarrow> nat" where
  "pulse_start rng noise tamp aliceBits aliceBases p 0 = p"
| "pulse_start rng noise tamp aliceBits aliceBases p (Suc i) =
     snd (snd (snd (layered_pulse rng noise tamp (aliceBases ! i) (aliceBits ! i)
       (pulse_start rng noise tamp aliceBits aliceBases p i))))"

definition pulse_basis :: "rng \<Rightarrow> rat \<Rightarrow> bool \<Rightarrow> bit list \<Rightarrow> basis list \<Rightarrow> nat \<Rightarrow> nat \<Rightarrow> basis" where
  "pulse_basis rng noise tamp aliceBits aliceBases p i =
     fst (layered_pulse rng noise tamp (aliceBases ! i) (aliceBits ! i)
       (pulse_start rng noise tamp aliceBits aliceBases p i))"

definition pulse_result :: "rng \<Rightarrow> rat \<Rightarrow> bool \<Rightarrow> bit list \<Rightarrow> basis list \<Rightarrow> nat \<Rightarrow> nat \<Rightarrow> bit" where
  "pulse_result rng noise tamp aliceBits aliceBases p i =
     fst (snd (layered_pulse rng noise tamp (aliceBases ! i) (aliceBits ! i)
       (pulse_start rng noise tamp aliceBits aliceBases p i)))"

definition pulse_flipped :: "rng \<Rightarrow> rat \<Rightarrow> bool \<Rightarrow> bit list \<Rightarrow> basis list \<Rightarrow> nat \<Rightarrow> nat \<Rightarrow> bool" where
  "pulse_flipped rng noise tamp aliceBits aliceBases p i =
     fst (snd (snd (layered_pulse rng noise tamp (aliceBases ! i) (aliceBits ! i)
       (pulse_start rng noise tamp aliceBits aliceBases p i))))"

definition pulse_tamper_pos :: "rng \<Rightarrow> rat \<Rightarrow> bool \<Rightarrow> bit list \<Rightarrow> basis list \<Rightarrow> nat \<Rightarrow> nat \<Rightarrow> nat" where
  "pulse_tamper_pos rng noise tamp aliceBits aliceBases p i =
     (let q = pulse_start rng noise tamp aliceBits aliceBases p i
      in if rng (q + 1) < noise \<or> randBasis (rng q) \<noteq> aliceBases ! i then q + 3 else q + 2)"

section \<open>Names for the parts of a call's result\<close>

abbreviation run_state :: "rng \<Rightarrow> nat \<Rightarrow> app_state \<Rightarrow> app_state" where
  "run_state rng p s \<equiv> fst (runInitialization rng p s)"

abbreviation run_result :: "rng \<Rightarrow> nat \<Rightarrow> app_state \<Rightarrow> run_outcome" where
  "run_result rng p s \<equiv> snd (snd (runInitialization rng p s))"

text \<open>The locals of a call after sifting, and the position of the first draw that the
  part of the call after the measuring loop reads.\<close>

definition run_locals :: "rng \<Rightarrow> nat \<Rightarrow> app_state \<Rightarrow> run_vars" where
  "run_locals rng p s = snd (snd (run_front rng p s))"

definition run_key_start :: "rng \<Rightarrow> nat \<Rightarrow> app_state \<Rightarrow> nat" where
  "run_key_start rng p s = fst (snd (run_front rng p s))"

text \<open>The sample a call reveals (lines 900-901).\<close>

definition run_sample :: "rng \<Rightarrow> nat \<Rightarrow> app_state \<Rightarrow> sample_entry list" where
  "run_sample rng p s =
     sample_of (run_sampleSize s) (l_keepIndices (run_locals rng p s))
       (l_aliceBits (run_locals rng p s)) (l_bobResults (run_locals rng p s))"

abbreviation sign_state :: "rng \<Rightarrow> nat \<Rightarrow> app_state \<Rightarrow> app_state" where
  "sign_state rng p s \<equiv> fst (signAndSend rng p s)"

abbreviation sign_result :: "rng \<Rightarrow> nat \<Rightarrow> app_state \<Rightarrow> sign_outcome" where
  "sign_result rng p s \<equiv> snd (snd (signAndSend rng p s))"

text \<open>The outputs of the measuring loop started with empty arrays and a zero counter.\<close>

definition measured ::
  "rng \<Rightarrow> rat \<Rightarrow> bool \<Rightarrow> int \<Rightarrow> bit list \<Rightarrow> basis list \<Rightarrow> nat \<Rightarrow> app_state \<Rightarrow> nat \<Rightarrow>
   nat \<times> basis list \<times> bit list \<times> nat" where
  "measured rng noise tamp pulseInterval aliceBits aliceBases N s p =
     snd (measure_loop rng noise tamp pulseInterval aliceBits aliceBases N 0 (s, p, [], [], 0))"

section \<open>Concrete engine states and draw sequences\<close>

text \<open>The simulation view on a perfect and on a noisy channel, with the default
  parameters; the same with the tamper button pressed; a noisy channel with one qubit;
  a tampered perfect channel with a negative sample size typed into the field.\<close>

definition st_perfect :: app_state where
  "st_perfect = start_simulation perfect initial_state"

definition st_noisy :: app_state where
  "st_noisy = start_simulation noisy initial_state"

definition st_tampered :: app_state where
  "st_tampered = handleTamperClick st_perfect"

definition st_noisy_one :: app_state where
  "st_noisy_one = st_noisy\<lparr>qkdN := Some 1\<rparr>"

definition st_tampered_nosample :: app_state where
  "st_tampered_nosample = st_tampered\<lparr>qberSampleSize := Some (- 1)\<rparr>"

text \<open>A state in which a call is in flight.\<close>

definition st_busy :: app_state where
  "st_busy = st_perfect\<lparr>qkdRunning := True\<rparr>"

text \<open>Draw sequences: all draws 0; all draws 3/4; with five qubits under tampering,
  every basis draw of Bob 3/4 and every other draw 0, so that no basis matches; the
  fifth draw 3/4 and every other draw 0.\<close>

definition draws_zero :: rng where
  "draws_zero = (\<lambda>n. 0)"

definition draws_high :: rng where
  "draws_high = (\<lambda>n. 3 / 4)"

definition draws_no_match :: rng where
  "draws_no_match = (\<lambda>n. if 10 \<le> n \<and> (n - 10) mod 4 = 0 then 3 / 4 else 0)"

definition draws_one_error :: rng where
  "draws_one_error = (\<lambda>n. if n = 4 then 3 / 4 else 0)"

text \<open>The engine after a completed call on the perfect channel, and the same with the
  tamper button pressed afterwards.\<close>

definition st_done :: app_state where
  "st_done = run_state draws_zero 0 st_perfect"

definition st_done_tampered :: app_state where
  "st_done_tampered = handleTamperClick st_done"

section \<open>What each setter changes\<close>

lemma addLog_frame [simp]:
  "running (addLog e s) = running s"
  "qkdRunning (addLog e s) = qkdRunning s"
  "qkdDone (addLog e s) = qkdDone s"
  "channelMode (addLog e s) = channelMode s"
  "noiseIndex (addLog e s) = noiseIndex s"
  "noiseLocked (addLog e s) = noiseLocked s"
  "aliceState (addLog e s) = aliceState s"
  "bobState (addLog e s) = bobState s"
  "sifted (addLog e s) = sifted s"
  "revealedSample (addLog e s) = revealedSample s"
  "qber (addLog e s) = qber s"
  "sharedKey (addLog e s) = sharedKey s"
  "qkdN (addLog e s) = qkdN s"
  "pulseIntervalMs (addLog e s) = pulseIntervalMs s"
  "qberSampleSize (addLog e s) = qberSampleSize s"
  "tampering (addLog e s) = tampering s"
  "signRunning (addLog e s) = signRunning s"
  "currentStatus (addLog e s) = currentStatus s"
  "classicalCh (addLog e s) = classicalCh s"
  "quantumCh (addLog e s) = quantumCh s"
  by (simp_all add: addLog_def)

lemma addLog_logs [simp]: "logs (addLog e s) = logs s @ [e]"
  by (simp add: addLog_def)

lemma updateStatus_frame [simp]:
  "running (updateStatus t b fd s) = running s"
  "qkdRunning (updateStatus t b fd s) = qkdRunning s"
  "qkdDone (updateStatus t b fd s) = qkdDone s"
  "channelMode (updateStatus t b fd s) = channelMode s"
  "noiseIndex (updateStatus t b fd s) = noiseIndex s"
  "noiseLocked (updateStatus t b fd s) = noiseLocked s"
  "aliceState (updateStatus t b fd s) = aliceState s"
  "bobState (updateStatus t b fd s) = bobState s"
  "sifted (updateStatus t b fd s) = sifted s"
  "revealedSample (updateStatus t b fd s) = revealedSample s"
  "qber (updateStatus t b fd s) = qber s"
  "sharedKey (updateStatus t b fd s) = sharedKey s"
  "qkdN (updateStatus t b fd s) = qkdN s"
  "pulseIntervalMs (updateStatus t b fd s) = pulseIntervalMs s"
  "qberSampleSize (updateStatus t b fd s) = qberSampleSize s"
  "tampering (updateStatus t b fd s) = tampering s"
  "signRunning (updateStatus t b fd s) = signRunning s"
  "classicalCh (updateStatus t b fd s) = classicalCh s"
  "quantumCh (updateStatus t b fd s) = quantumCh s"
  by (simp_all add: updateStatus_def addLog_def Let_def split: option.splits fake_details.splits)

lemma updateStatus_currentStatus [simp]: "currentStatus (updateStatus t b fd s) = t"
  by (simp add: updateStatus_def addLog_def Let_def split: option.splits fake_details.splits)

lemma updateStatus_logs [simp]:
  "logs (updateStatus t False fd s) = logs s"
  "logs (updateStatus t True None s) = logs s @ [LogText t]"
  "logs (updateStatus t True (Some (FdPhi r e)) s) = logs s @ [LogPhi r e]"
  "logs (updateStatus t True (Some (FdPreP n)) s) = logs s @ [LogDataCollected n, LogEncodedP]"
  "logs (updateStatus t True (Some (FdKey l)) s) = logs s @ [LogKeyEstablished l]"
  by (simp_all add: updateStatus_def addLog_def Let_def)

lemma sendClassical_frame [simp]:
  "running (sendClassical c x d s) = running s"
  "qkdRunning (sendClassical c x d s) = qkdRunning s"
  "qkdDone (sendClassical c x d s) = qkdDone s"
  "channelMode (sendClassical c x d s) = channelMode s"
  "noiseIndex (sendClassical c x d s) = noiseIndex s"
  "noiseLocked (sendClassical c x d s) = noiseLocked s"
  "aliceState (sendClassical c x d s) = aliceState s"
  "bobState (sendClassical c x d s) = bobState s"
  "sifted (sendClassical c x d s) = sifted s"
  "revealedSample (sendClassical c x d s) = revealedSample s"
  "qber (sendClassical c x d s) = qber s"
  "sharedKey (sendClassical c x d s) = sharedKey s"
  "qkdN (sendClassical c x d s) = qkdN s"
  "pulseIntervalMs (sendClassical c x d s) = pulseIntervalMs s"
  "qberSampleSize (sendClassical c x d s) = qberSampleSize s"
  "tampering (sendClassical c x d s) = tampering s"
  "signRunning (sendClassical c x d s) = signRunning s"
  "currentStatus (sendClassical c x d s) = currentStatus s"
  "logs (sendClassical c x d s) = logs s"
  "quantumCh (sendClassical c x d s) = quantumCh s"
  by (simp_all add: sendClassical_def split: option.splits)

lemma sendQuantum_frame [simp]:
  "running (sendQuantum c d s) = running s"
  "qkdRunning (sendQuantum c d s) = qkdRunning s"
  "qkdDone (sendQuantum c d s) = qkdDone s"
  "channelMode (sendQuantum c d s) = channelMode s"
  "noiseIndex (sendQuantum c d s) = noiseIndex s"
  "noiseLocked (sendQuantum c d s) = noiseLocked s"
  "aliceState (sendQuantum c d s) = aliceState s"
  "bobState (sendQuantum c d s) = bobState s"
  "sifted (sendQuantum c d s) = sifted s"
  "revealedSample (sendQuantum c d s) = revealedSample s"
  "qber (sendQuantum c d s) = qber s"
  "sharedKey (sendQuantum c d s) = sharedKey s"
  "qkdN (sendQuantum c d s) = qkdN s"
  "pulseIntervalMs (sendQuantum c d s) = pulseIntervalMs s"
  "qberSampleSize (sendQuantum c d s) = qberSampleSize s"
  "tampering (sendQuantum c d s) = tampering s"
  "signRunning (sendQuantum c d s) = signRunning s"
  "currentStatus (sendQuantum c d s) = currentStatus s"
  "logs (sendQuantum c d s) = logs s"
  "classicalCh (sendQuantum c d s) = classicalCh s"
  by (simp_all add: sendQuantum_def split: option.splits)

lemma setAliceText_frame [simp]:
  "running (setAliceText t s) = running s"
  "qkdRunning (setAliceText t s) = qkdRunning s"
  "qkdDone (setAliceText t s) = qkdDone s"
  "channelMode (setAliceText t s) = channelMode s"
  "noiseIndex (setAliceText t s) = noiseIndex s"
  "noiseLocked (setAliceText t s) = noiseLocked s"
  "bobState (setAliceText t s) = bobState s"
  "sifted (setAliceText t s) = sifted s"
  "revealedSample (setAliceText t s) = revealedSample s"
  "qber (setAliceText t s) = qber s"
  "sharedKey (setAliceText t s) = sharedKey s"
  "qkdN (setAliceText t s) = qkdN s"
  "pulseIntervalMs (setAliceText t s) = pulseIntervalMs s"
  "qberSampleSize (setAliceText t s) = qberSampleSize s"
  "tampering (setAliceText t s) = tampering s"
  "signRunning (setAliceText t s) = signRunning s"
  "currentStatus (setAliceText t s) = currentStatus s"
  "logs (setAliceText t s) = logs s"
  "classicalCh (setAliceText t s) = classicalCh s"
  "quantumCh (setAliceText t s) = quantumCh s"
  by (simp_all add: setAliceText_def)

lemma setBobText_frame [simp]:
  "running (setBobText t s) = running s"
  "qkdRunning (setBobText t s) = qkdRunning s"
  "qkdDone (setBobText t s) = qkdDone s"
  "channelMode (setBobText t s) = channelMode s"
  "noiseIndex (setBobText t s) = noiseIndex s"
  "noiseLocked (setBobText t s) = noiseLocked s"
  "aliceState (setBobText t s) = aliceState s"
  "sifted (setBobText t s) = sifted s"
  "revealedSample (setBobText t s) = revealedSample s"
  "qber (setBobText t s) = qber s"
  "sharedKey (setBobText t s) = sharedKey s"
  "qkdN (setBobText t s) = qkdN s"
  "pulseIntervalMs (setBobText t s) = pulseIntervalMs s"
  "qberSampleSize (setBobText t s) = qberSampleSize s"
  "tampering (setBobText t s) = tampering s"
  "signRunning (setBobText t s) = signRunning s"
  "currentStatus (setBobText t s) = currentStatus s"
  "logs (setBobText t s) = logs s"
  "classicalCh (setBobText t s) = classicalCh s"
  "quantumCh (setBobText t s) = quantumCh s"
  by (simp_all add: setBobText_def)

lemma setAliceText_aliceState [simp]:
  "aliceState (setAliceText t s) = (aliceState s)\<lparr>a_text := t\<rparr>"
  by (simp add: setAliceText_def)

lemma setBobText_bobState [simp]:
  "bobState (setBobText t s) = (bobState s)\<lparr>b_text := t\<rparr>"
  by (simp add: setBobText_def)

section \<open>The loops in closed form\<close>

lemma prepare_loop_eq:
  "i \<le> N \<Longrightarrow> prepare_loop rng N i p bits bases =
     (p + 2 * (N - i),
      bits @ map (\<lambda>k. randBit (rng (p + 2 * k))) [0..<N - i],
      bases @ map (\<lambda>k. randBasis (rng (p + 2 * k + 1))) [0..<N - i])"
proof (induction rng N i p bits bases rule: prepare_loop.induct)
  case (1 rng N i p aliceBits aliceBases)
  show ?case
  proof (cases "i < N")
    case True
    then have d: "N - i = Suc (N - Suc i)" by simp
    have u: "[0..<Suc (N - Suc i)] = 0 # map Suc [0..<N - Suc i]"
      by (simp add: upt_conv_Cons map_Suc_upt del: upt_Suc)
    from True have "Suc i \<le> N" by simp
    with True "1.IH" show ?thesis
      by (subst prepare_loop.simps) (simp add: d u comp_def del: upt_Suc)
  next
    case False
    with "1.prems" have "i = N" by simp
    then show ?thesis by (subst prepare_loop.simps) simp
  qed
qed

lemma sift_loop_eq:
  "i \<le> N \<Longrightarrow> sift_loop N i aliceBases bobBases aliceBits bobResults (ks, as, bs) =
     (ks @ filter (\<lambda>j. aliceBases ! j = bobBases ! j) [i..<N],
      as @ map (\<lambda>j. aliceBits ! j) (filter (\<lambda>j. aliceBases ! j = bobBases ! j) [i..<N]),
      bs @ map (\<lambda>j. bobResults ! j) (filter (\<lambda>j. aliceBases ! j = bobBases ! j) [i..<N]))"
proof (induction "N - i" arbitrary: i ks as bs)
  case 0
  then have "i = N" by simp
  then show ?case by (subst sift_loop.simps) simp
next
  case (Suc k)
  then have lt: "i < N" and k: "k = N - Suc i" and le: "Suc i \<le> N" by simp_all
  have u: "[i..<N] = i # [Suc i..<N]" using lt by (simp add: upt_conv_Cons)
  show ?case
    by (subst sift_loop.simps) (simp add: lt u Suc.hyps(1)[OF k le])
qed

lemma measure_body_layered:
  "snd (measure_body rng noise tamp pI aliceBits aliceBases i (s, q, bs, ys, c)) =
     (case layered_pulse rng noise tamp (aliceBases ! i) (aliceBits ! i) q of
        (bB, y, flip, q') \<Rightarrow> (q', bs @ [bB], ys @ [y], if flip then c + 1 else c))"
  by (simp add: measure_body_def layered_pulse_def noisy_outcome_def tamper_layer_def Let_def
        numeral_3_eq_3 numeral_2_eq_2)

lemma measure_body_state:
  "\<exists>bb br bt qc. fst (measure_body rng noise tamp pI aliceBits aliceBases i (s, q, bs, ys, c)) =
     s\<lparr>bobState := (bobState s)\<lparr>b_bases := bb, b_results := br, b_text := bt\<rparr>, quantumCh := qc\<rparr>"
  by (cases "quantumCh s")
     (auto simp: measure_body_def sendQuantum_def Let_def split: prod.splits
           intro!: exI app_state.equality)

lemma measure_loop_state:
  "\<exists>bb br bt qc. fst (measure_loop rng noise tamp pI aliceBits aliceBases N i (s, q, bs, ys, c)) =
     s\<lparr>bobState := (bobState s)\<lparr>b_bases := bb, b_results := br, b_text := bt\<rparr>, quantumCh := qc\<rparr>"
proof (induction "N - i" arbitrary: i s q bs ys c)
  case 0
  then have "\<not> i < N" by simp
  then have "fst (measure_loop rng noise tamp pI aliceBits aliceBases N i (s, q, bs, ys, c)) = s"
    by (subst measure_loop.simps) simp
  moreover have "s = s\<lparr>bobState := (bobState s)\<lparr>b_bases := b_bases (bobState s),
      b_results := b_results (bobState s), b_text := b_text (bobState s)\<rparr>, quantumCh := quantumCh s\<rparr>"
    by simp
  ultimately show ?case by metis
next
  case (Suc k)
  then have lt: "i < N" and k: "k = N - Suc i" by simp_all
  obtain s1 q1 bs1 ys1 c1 where
    b: "measure_body rng noise tamp pI aliceBits aliceBases i (s, q, bs, ys, c) = (s1, q1, bs1, ys1, c1)"
    by (metis prod_cases5)
  from measure_body_state[of rng noise tamp pI aliceBits aliceBases i s q bs ys c] b
  obtain bb br bt qc where
    s1: "s1 = s\<lparr>bobState := (bobState s)\<lparr>b_bases := bb, b_results := br, b_text := bt\<rparr>, quantumCh := qc\<rparr>"
    by auto
  from Suc.hyps(1)[OF k, of s1 q1 bs1 ys1 c1]
  obtain bb' br' bt' qc' where
    "fst (measure_loop rng noise tamp pI aliceBits aliceBases N (Suc i) (s1, q1, bs1, ys1, c1)) =
       s1\<lparr>bobState := (bobState s1)\<lparr>b_bases := bb', b_results := br', b_text := bt'\<rparr>, quantumCh := qc'\<rparr>"
    by blast
  then have "fst (measure_loop rng noise tamp pI aliceBits aliceBases N i (s, q, bs, ys, c)) =
       s\<lparr>bobState := (bobState s)\<lparr>b_bases := bb', b_results := br', b_text := bt'\<rparr>, quantumCh := qc'\<rparr>"
    by (subst measure_loop.simps) (simp add: lt b s1)
  then show ?case by blast
qed

lemma measure_loop_layered:
  "i \<le> N \<Longrightarrow>
   snd (measure_loop rng noise tamp pI aliceBits aliceBases N i
      (s, pulse_start rng noise tamp aliceBits aliceBases p i,
       map (pulse_basis rng noise tamp aliceBits aliceBases p) [0..<i],
       map (pulse_result rng noise tamp aliceBits aliceBases p) [0..<i],
       length (filter (pulse_flipped rng noise tamp aliceBits aliceBases p) [0..<i]))) =
     (pulse_start rng noise tamp aliceBits aliceBases p N,
       map (pulse_basis rng noise tamp aliceBits aliceBases p) [0..<N],
       map (pulse_result rng noise tamp aliceBits aliceBases p) [0..<N],
       length (filter (pulse_flipped rng noise tamp aliceBits aliceBases p) [0..<N]))"
proof (induction "N - i" arbitrary: i s)
  case 0
  then have "i = N" by simp
  then show ?case by (subst measure_loop.simps) simp
next
  case (Suc k)
  then have lt: "i < N" and k: "k = N - Suc i" and le: "Suc i \<le> N" by simp_all
  obtain s' r where b: "measure_body rng noise tamp pI aliceBits aliceBases i
      (s, pulse_start rng noise tamp aliceBits aliceBases p i,
       map (pulse_basis rng noise tamp aliceBits aliceBases p) [0..<i],
       map (pulse_result rng noise tamp aliceBits aliceBases p) [0..<i],
       length (filter (pulse_flipped rng noise tamp aliceBits aliceBases p) [0..<i])) = (s', r)"
    by (metis surj_pair)
  have r: "r = (pulse_start rng noise tamp aliceBits aliceBases p (Suc i),
       map (pulse_basis rng noise tamp aliceBits aliceBases p) [0..<Suc i],
       map (pulse_result rng noise tamp aliceBits aliceBases p) [0..<Suc i],
       length (filter (pulse_flipped rng noise tamp aliceBits aliceBases p) [0..<Suc i]))"
    using measure_body_layered[of rng noise tamp pI aliceBits aliceBases i s
        "pulse_start rng noise tamp aliceBits aliceBases p i"
        "map (pulse_basis rng noise tamp aliceBits aliceBases p) [0..<i]"
        "map (pulse_result rng noise tamp aliceBits aliceBases p) [0..<i]"
        "length (filter (pulse_flipped rng noise tamp aliceBits aliceBases p) [0..<i])"]
    unfolding b
    by (simp add: pulse_basis_def pulse_result_def pulse_flipped_def split: prod.splits)
  show ?case
    by (subst measure_loop.simps) (simp only: lt if_True b r Suc.hyps(1)[OF k le])
qed

lemma measure_loop_result:
  assumes "measure_loop rng noise tamp pI aliceBits aliceBases N 0 (s, p, [], [], 0) =
             (s', p', bobBases, bobResults, cnt)"
  shows "p' = pulse_start rng noise tamp aliceBits aliceBases p N"
    and "bobBases = map (pulse_basis rng noise tamp aliceBits aliceBases p) [0..<N]"
    and "bobResults = map (pulse_result rng noise tamp aliceBits aliceBases p) [0..<N]"
    and "cnt = length (filter (pulse_flipped rng noise tamp aliceBits aliceBases p) [0..<N])"
    and "\<exists>bb br bt qc. s' =
      s\<lparr>bobState := (bobState s)\<lparr>b_bases := bb, b_results := br, b_text := bt\<rparr>, quantumCh := qc\<rparr>"
  using measure_loop_layered[of 0 N rng noise tamp pI aliceBits aliceBases s p]
        measure_loop_state[of rng noise tamp pI aliceBits aliceBases N 0 s p "[]" "[]" 0] assms
  by simp_all

lemma run_front_vars:
  assumes "run_front rng p s = (s15, p2, v)"
  defines "N \<equiv> run_N s"
  defines "aliceBits \<equiv> map (\<lambda>k. randBit (rng (p + 2 * k))) [0..<N]"
  defines "aliceBases \<equiv> map (\<lambda>k. randBasis (rng (p + 2 * k + 1))) [0..<N]"
  defines "bobBases \<equiv> map (pulse_basis rng (run_noise s) (tampering s) aliceBits aliceBases (p + 2 * N)) [0..<N]"
  defines "bobResults \<equiv> map (pulse_result rng (run_noise s) (tampering s) aliceBits aliceBases (p + 2 * N)) [0..<N]"
  defines "keep \<equiv> filter (\<lambda>j. aliceBases ! j = bobBases ! j) [0..<N]"
  shows "v = \<lparr>l_noise = run_noise s, l_N = N, l_pulseInterval = run_pulseInterval s,
              l_sampleSize = run_sampleSize s, l_aliceBits = aliceBits, l_aliceBases = aliceBases,
              l_bobBases = bobBases, l_bobResults = bobResults,
              l_tamperIntroducedCount =
                length (filter (pulse_flipped rng (run_noise s) (tampering s) aliceBits aliceBases (p + 2 * N)) [0..<N]),
              l_keepIndices = keep, l_aBitsSifted = map (\<lambda>j. aliceBits ! j) keep,
              l_bBitsSifted = map (\<lambda>j. bobResults ! j) keep\<rparr>"
    and "p2 = pulse_start rng (run_noise s) (tampering s) aliceBits aliceBases (p + 2 * N) N"
    and "sifted s15 = \<lparr>s_indices = l_keepIndices v, s_aliceBits = l_aBitsSifted v,
                        s_bobBits = l_bBitsSifted v\<rparr>"
    and "sharedKey s15 = None" and "qkdDone s15 = False" and "qkdRunning s15 = True"
    and "a_phi (aliceState s15) = []" and "b_phi (bobState s15) = []"
    and "tampering s15 = tampering s" and "signRunning s15 = signRunning s"
    and "a_bits (aliceState s15) = aliceBits" and "a_bases (aliceState s15) = aliceBases"
proof -
  have pl: "prepare_loop rng N 0 p [] [] = (p + 2 * N, aliceBits, aliceBases)"
    using prepare_loop_eq[of 0 N rng p "[]" "[]"] by (simp add: aliceBits_def aliceBases_def)
  define s4 where "s4 = setBobText TxChoosingBases (updateStatus (StSending N) False None
     ((run_begin s)\<lparr>aliceState := (aliceState (run_begin s))\<lparr>a_bits := aliceBits, a_bases := aliceBases\<rparr>\<rparr>))"
  obtain s5 p2' bB bR cnt where
    ml: "measure_loop rng (run_noise s) (tampering s) (run_pulseInterval s) aliceBits aliceBases N 0
           (s4, p + 2 * N, [], [], 0) = (s5, p2', bB, bR, cnt)"
    by (metis prod_cases5)
  note r = measure_loop_result[OF ml]
  have sl: "sift_loop N 0 aliceBases bobBases aliceBits bobResults ([], [], []) =
      (keep, map (\<lambda>j. aliceBits ! j) keep, map (\<lambda>j. bobResults ! j) keep)"
    using sift_loop_eq[of 0 N aliceBases bobBases aliceBits bobResults "[]" "[]" "[]"]
    by (simp add: keep_def)
  from r(5) obtain bb br bt qc where s5: "s5 =
      s4\<lparr>bobState := (bobState s4)\<lparr>b_bases := bb, b_results := br, b_text := bt\<rparr>, quantumCh := qc\<rparr>"
    by blast
  have rf: "run_front rng p s =
     (let s6 = setAliceText TxAllSent s5;
          s7 = setBobText TxAllMeasured s6;
          s8 = setBobText TxReporting s7;
          s9 = sendClassical (PktDetected [0..<N]) bob (run_pulseInterval s) s8;
          s10 = sendClassical (PktBases bobBases) bob (run_pulseInterval s) s9;
          s11 = updateStatus StRevealing False None s10;
          s12 = sendClassical (PktBases aliceBases) alice (run_pulseInterval s) s11;
          s13 = s12\<lparr>sifted := \<lparr>s_indices = keep, s_aliceBits = map (\<lambda>j. aliceBits ! j) keep,
                                 s_bobBits = map (\<lambda>j. bobResults ! j) keep\<rparr>\<rparr>;
          s14 = updateStatus (StSiftingDone (length keep)) False None s13;
          s15 = setBobText (TxSiftingDone (length keep)) s14
      in (s15, p2',
          \<lparr>l_noise = run_noise s, l_N = N, l_pulseInterval = run_pulseInterval s,
           l_sampleSize = run_sampleSize s,
           l_aliceBits = aliceBits, l_aliceBases = aliceBases, l_bobBases = bobBases,
           l_bobResults = bobResults, l_tamperIntroducedCount = cnt,
           l_keepIndices = keep, l_aBitsSifted = map (\<lambda>j. aliceBits ! j) keep,
           l_bBitsSifted = map (\<lambda>j. bobResults ! j) keep\<rparr>))"
    unfolding run_front_def Let_def N_def[symmetric] pl prod.case s4_def[symmetric] ml
      r(2)[folded bobBases_def] r(3)[folded bobResults_def] sl
    by (rule refl)
  from assms(1) have v: "v = \<lparr>l_noise = run_noise s, l_N = N, l_pulseInterval = run_pulseInterval s,
           l_sampleSize = run_sampleSize s,
           l_aliceBits = aliceBits, l_aliceBases = aliceBases, l_bobBases = bobBases,
           l_bobResults = bobResults, l_tamperIntroducedCount = cnt,
           l_keepIndices = keep, l_aBitsSifted = map (\<lambda>j. aliceBits ! j) keep,
           l_bBitsSifted = map (\<lambda>j. bobResults ! j) keep\<rparr>" and p2: "p2 = p2'"
    unfolding rf Let_def by simp_all
  show "v = \<lparr>l_noise = run_noise s, l_N = N, l_pulseInterval = run_pulseInterval s,
              l_sampleSize = run_sampleSize s, l_aliceBits = aliceBits, l_aliceBases = aliceBases,
              l_bobBases = bobBases, l_bobResults = bobResults,
              l_tamperIntroducedCount =
                length (filter (pulse_flipped rng (run_noise s) (tampering s) aliceBits aliceBases (p + 2 * N)) [0..<N]),
              l_keepIndices = keep, l_aBitsSifted = map (\<lambda>j. aliceBits ! j) keep,
              l_bBitsSifted = map (\<lambda>j. bobResults ! j) keep\<rparr>"
    using v r(4) by simp
  show "p2 = pulse_start rng (run_noise s) (tampering s) aliceBits aliceBases (p + 2 * N) N"
    using p2 r(1) by simp
  have s15: "s15 = setBobText (TxSiftingDone (length keep))
      (updateStatus (StSiftingDone (length keep)) False None
        ((sendClassical (PktBases aliceBases) alice (run_pulseInterval s)
          (updateStatus StRevealing False None
            (sendClassical (PktBases bobBases) bob (run_pulseInterval s)
              (sendClassical (PktDetected [0..<N]) bob (run_pulseInterval s)
                (setBobText TxReporting (setBobText TxAllMeasured (setAliceText TxAllSent s5)))))))
         \<lparr>sifted := \<lparr>s_indices = keep, s_aliceBits = map (\<lambda>j. aliceBits ! j) keep,
                                 s_bobBits = map (\<lambda>j. bobResults ! j) keep\<rparr>\<rparr>))"
    using assms(1) unfolding rf Let_def by simp
  note st = s15 s5 s4_def run_begin_def setBobText_def setAliceText_def updateStatus_def addLog_def
    sendClassical_def Let_def
  show "sifted s15 = \<lparr>s_indices = l_keepIndices v, s_aliceBits = l_aBitsSifted v,
                        s_bobBits = l_bBitsSifted v\<rparr>"
    by (simp add: st v split: option.splits)
  show "sharedKey s15 = None" by (simp add: st split: option.splits)
  show "qkdDone s15 = False" by (simp add: st split: option.splits)
  show "qkdRunning s15 = True" by (simp add: st split: option.splits)
  show "a_phi (aliceState s15) = []" by (simp add: st split: option.splits)
  show "b_phi (bobState s15) = []" by (simp add: st split: option.splits)
  show "tampering s15 = tampering s" by (simp add: st split: option.splits)
  show "signRunning s15 = signRunning s" by (simp add: st split: option.splits)
  show "a_bits (aliceState s15) = aliceBits" by (simp add: st split: option.splits)
  show "a_bases (aliceState s15) = aliceBases" by (simp add: st split: option.splits)
qed


lemmas setter_defs = setBobText_def setAliceText_def updateStatus_def addLog_def
  sendClassical_def sendQuantum_def Let_def

lemma run_finish_props:
  defines "len \<equiv> \<lambda>N (aBitsSifted :: bit list). max (2 * N) (length aBitsSifted)"
  shows "sharedKey (fst (run_finish rng p N pI tamp aBitsSifted s)) =
           Some (key_bits rng p (len N aBitsSifted))"
    and "sifted (fst (run_finish rng p N pI tamp aBitsSifted s)) =
           (sifted s)\<lparr>s_bobBits := aBitsSifted\<rparr>"
    and "snd (snd (run_finish rng p N pI tamp aBitsSifted s)) =
           (if tamp then RunPhiWithheld else RunCompleted)"
    and "qkdDone (fst (run_finish rng p N pI tamp aBitsSifted s)) = (\<not> tamp)"
    and "qkdRunning (fst (run_finish rng p N pI tamp aBitsSifted s)) = False"
    and "revealedSample (fst (run_finish rng p N pI tamp aBitsSifted s)) = revealedSample s"
    and "qber (fst (run_finish rng p N pI tamp aBitsSifted s)) = qber s"
    and "a_phi (aliceState (fst (run_finish rng p N pI tamp aBitsSifted s))) =
           (if tamp then a_phi (aliceState s) else phi_token rng (p + len N aBitsSifted + 1))"
    and "b_phi (bobState (fst (run_finish rng p N pI tamp aBitsSifted s))) =
           (if tamp then b_phi (bobState s) else phi_token rng (p + len N aBitsSifted + 1))"
    and "fst (snd (run_finish rng p N pI tamp aBitsSifted s)) =
           p + len N aBitsSifted + (if tamp then 0 else 7)"
  unfolding len_def
  by (simp_all add: run_finish_def setter_defs split: option.splits)

lemma run_estimate_props:
  fixes sampleSize keepIndices aliceBits bobResults
  defines "sample \<equiv> sample_of sampleSize keepIndices aliceBits bobResults"
  defines "r \<equiv> \<lambda>rng p N pI tamp cnt aBitsSifted s.
     run_estimate rng p N pI sampleSize tamp cnt aliceBits bobResults keepIndices aBitsSifted s"
  shows "revealedSample (fst (r rng p N pI tamp cnt aBitsSifted s)) = sample"
    and "qber (fst (r rng p N pI tamp cnt aBitsSifted s)) = Some (sample_qber sample)"
    and "tamp \<and> sample \<noteq> [] \<Longrightarrow>
           snd (snd (r rng p N pI tamp cnt aBitsSifted s)) =
             (if sample_qber sample \<le> 45 / 100 then AbortedEavesdrop else AbortedHighQber) \<and>
           sharedKey (fst (r rng p N pI tamp cnt aBitsSifted s)) = sharedKey s \<and>
           sifted (fst (r rng p N pI tamp cnt aBitsSifted s)) = sifted s \<and>
           qkdDone (fst (r rng p N pI tamp cnt aBitsSifted s)) = False \<and>
           qkdRunning (fst (r rng p N pI tamp cnt aBitsSifted s)) = False \<and>
           a_phi (aliceState (fst (r rng p N pI tamp cnt aBitsSifted s))) = a_phi (aliceState s) \<and>
           b_phi (bobState (fst (r rng p N pI tamp cnt aBitsSifted s))) = b_phi (bobState s) \<and>
           fst (snd (r rng p N pI tamp cnt aBitsSifted s)) = p"
    and "\<not> (tamp \<and> sample \<noteq> []) \<Longrightarrow>
           snd (snd (r rng p N pI tamp cnt aBitsSifted s)) =
             (if tamp then RunPhiWithheld else RunCompleted) \<and>
           sharedKey (fst (r rng p N pI tamp cnt aBitsSifted s)) =
             Some (key_bits rng p (max (2 * N) (length aBitsSifted))) \<and>
           sifted (fst (r rng p N pI tamp cnt aBitsSifted s)) = (sifted s)\<lparr>s_bobBits := aBitsSifted\<rparr> \<and>
           qkdDone (fst (r rng p N pI tamp cnt aBitsSifted s)) = (\<not> tamp) \<and>
           qkdRunning (fst (r rng p N pI tamp cnt aBitsSifted s)) = False \<and>
           a_phi (aliceState (fst (r rng p N pI tamp cnt aBitsSifted s))) =
             (if tamp then a_phi (aliceState s)
              else phi_token rng (p + max (2 * N) (length aBitsSifted) + 1)) \<and>
           b_phi (bobState (fst (r rng p N pI tamp cnt aBitsSifted s))) =
             (if tamp then b_phi (bobState s)
              else phi_token rng (p + max (2 * N) (length aBitsSifted) + 1)) \<and>
           fst (snd (r rng p N pI tamp cnt aBitsSifted s)) =
             p + max (2 * N) (length aBitsSifted) + (if tamp then 0 else 7)"
proof -
  note d = r_def run_estimate_def sample_def[symmetric] Let_def
  show "revealedSample (fst (r rng p N pI tamp cnt aBitsSifted s)) = sample"
    by (simp add: d run_finish_props abort_eavesdrop_def abort_high_qber_def setter_defs
          split: option.splits)
  show "qber (fst (r rng p N pI tamp cnt aBitsSifted s)) = Some (sample_qber sample)"
    by (simp add: d run_finish_props abort_eavesdrop_def abort_high_qber_def setter_defs
          sample_qber_def split: option.splits)
  show "tamp \<and> sample \<noteq> [] \<Longrightarrow>
           snd (snd (r rng p N pI tamp cnt aBitsSifted s)) =
             (if sample_qber sample \<le> 45 / 100 then AbortedEavesdrop else AbortedHighQber) \<and>
           sharedKey (fst (r rng p N pI tamp cnt aBitsSifted s)) = sharedKey s \<and>
           sifted (fst (r rng p N pI tamp cnt aBitsSifted s)) = sifted s \<and>
           qkdDone (fst (r rng p N pI tamp cnt aBitsSifted s)) = False \<and>
           qkdRunning (fst (r rng p N pI tamp cnt aBitsSifted s)) = False \<and>
           a_phi (aliceState (fst (r rng p N pI tamp cnt aBitsSifted s))) = a_phi (aliceState s) \<and>
           b_phi (bobState (fst (r rng p N pI tamp cnt aBitsSifted s))) = b_phi (bobState s) \<and>
           fst (snd (r rng p N pI tamp cnt aBitsSifted s)) = p"
    by (simp add: d abort_eavesdrop_def abort_high_qber_def setter_defs split: option.splits)
  show "\<not> (tamp \<and> sample \<noteq> []) \<Longrightarrow>
           snd (snd (r rng p N pI tamp cnt aBitsSifted s)) =
             (if tamp then RunPhiWithheld else RunCompleted) \<and>
           sharedKey (fst (r rng p N pI tamp cnt aBitsSifted s)) =
             Some (key_bits rng p (max (2 * N) (length aBitsSifted))) \<and>
           sifted (fst (r rng p N pI tamp cnt aBitsSifted s)) = (sifted s)\<lparr>s_bobBits := aBitsSifted\<rparr> \<and>
           qkdDone (fst (r rng p N pI tamp cnt aBitsSifted s)) = (\<not> tamp) \<and>
           qkdRunning (fst (r rng p N pI tamp cnt aBitsSifted s)) = False \<and>
           a_phi (aliceState (fst (r rng p N pI tamp cnt aBitsSifted s))) =
             (if tamp then a_phi (aliceState s)
              else phi_token rng (p + max (2 * N) (length aBitsSifted) + 1)) \<and>
           b_phi (bobState (fst (r rng p N pI tamp cnt aBitsSifted s))) =
             (if tamp then b_phi (bobState s)
              else phi_token rng (p + max (2 * N) (length aBitsSifted) + 1)) \<and>
           fst (snd (r rng p N pI tamp cnt aBitsSifted s)) =
             p + max (2 * N) (length aBitsSifted) + (if tamp then 0 else 7)"
    by (cases "sample = []") (simp_all add: d run_finish_props setter_defs split: option.splits)
qed



section \<open>Which draws the first half of a call reads\<close>

lemma layered_pulse_advances:
  "q + 2 \<le> snd (snd (snd (layered_pulse rng noise tamp aBasis aBit q)))"
  by (simp add: layered_pulse_def Let_def)

lemma pulse_start_mono:
  "i \<le> j \<Longrightarrow> pulse_start rng noise tamp aliceBits aliceBases p i
     \<le> pulse_start rng noise tamp aliceBits aliceBases p j"
proof (induction j)
  case 0
  then show ?case by simp
next
  case (Suc j)
  show ?case
  proof (cases "i = Suc j")
    case True
    then show ?thesis by simp
  next
    case False
    with Suc.prems have "i \<le> j" by simp
    from Suc.IH[OF this]
      layered_pulse_advances[of "pulse_start rng noise tamp aliceBits aliceBases p j" rng noise tamp
        "aliceBases ! j" "aliceBits ! j"]
    show ?thesis by simp
  qed
qed

lemma layered_pulse_cong:
  assumes "\<forall>k < snd (snd (snd (layered_pulse rng noise tamp aBasis aBit q))). rng' k = rng k"
  shows "layered_pulse rng' noise tamp aBasis aBit q = layered_pulse rng noise tamp aBasis aBit q"
proof -
  have a: "rng' q = rng q" "rng' (q + 1) = rng (q + 1)"
    using assms layered_pulse_advances[of q rng noise tamp aBasis aBit] by auto
  show ?thesis
    using assms unfolding layered_pulse_def Let_def a
    by (auto split: if_splits)
qed

lemma measure_body_cong:
  assumes "\<forall>k < snd (snd (snd (layered_pulse rng noise tamp (aliceBases ! i) (aliceBits ! i) q))).
             rng' k = rng k"
  shows "measure_body rng' noise tamp pI aliceBits aliceBases i (s, q, bs, ys, c) =
         measure_body rng noise tamp pI aliceBits aliceBases i (s, q, bs, ys, c)"
proof -
  have a: "rng' q = rng q" "rng' (q + 1) = rng (q + 1)"
    using assms layered_pulse_advances[of q rng noise tamp "aliceBases ! i" "aliceBits ! i"] by auto
  show ?thesis
    using assms a
    unfolding measure_body_def layered_pulse_def noisy_outcome_def tamper_layer_def Let_def
    by (auto simp: numeral_3_eq_3 numeral_2_eq_2 split: if_splits)
qed


lemma measure_loop_cong:
  assumes "\<forall>k < pulse_start rng noise tamp aliceBits aliceBases p N. rng' k = rng k"
  shows "i \<le> N \<Longrightarrow>
    measure_loop rng' noise tamp pI aliceBits aliceBases N i
      (s, pulse_start rng noise tamp aliceBits aliceBases p i, bs, ys, c) =
    measure_loop rng noise tamp pI aliceBits aliceBases N i
      (s, pulse_start rng noise tamp aliceBits aliceBases p i, bs, ys, c)"
proof (induction "N - i" arbitrary: i s bs ys c)
  case 0
  then have "\<not> i < N" by simp
  then show ?case
    by (subst measure_loop.simps, subst (2) measure_loop.simps) simp
next
  case (Suc k)
  then have lt: "i < N" and k: "k = N - Suc i" and le: "Suc i \<le> N" by simp_all
  let ?q = "pulse_start rng noise tamp aliceBits aliceBases p i"
  have agree: "\<forall>k < snd (snd (snd (layered_pulse rng noise tamp (aliceBases ! i) (aliceBits ! i) ?q))).
      rng' k = rng k"
    using assms pulse_start_mono[OF le, of rng noise tamp aliceBits aliceBases p] by simp
  have b: "measure_body rng' noise tamp pI aliceBits aliceBases i (s, ?q, bs, ys, c) =
           measure_body rng noise tamp pI aliceBits aliceBases i (s, ?q, bs, ys, c)"
    by (rule measure_body_cong[OF agree])
  obtain s1 q1 bs1 ys1 c1 where
    r: "measure_body rng noise tamp pI aliceBits aliceBases i (s, ?q, bs, ys, c) = (s1, q1, bs1, ys1, c1)"
    by (metis prod_cases5)
  have q1: "q1 = pulse_start rng noise tamp aliceBits aliceBases p (Suc i)"
    using measure_body_layered[of rng noise tamp pI aliceBits aliceBases i s ?q bs ys c]
    unfolding r by (simp split: prod.splits)
  show ?case
    by (subst measure_loop.simps, subst (2) measure_loop.simps)
       (simp only: lt if_True b r q1 Suc.hyps(1)[OF k le])
qed

lemma run_key_start_eq:
  "run_key_start rng p s =
     pulse_start rng (run_noise s) (tampering s)
       (map (\<lambda>k. randBit (rng (p + 2 * k))) [0..<run_N s])
       (map (\<lambda>k. randBasis (rng (p + 2 * k + 1))) [0..<run_N s]) (p + 2 * run_N s) (run_N s)"
proof -
  have "run_front rng p s =
      (fst (run_front rng p s), fst (snd (run_front rng p s)), snd (snd (run_front rng p s)))"
    by simp
  from run_front_vars(2)[OF this] show ?thesis
    by (simp add: run_key_start_def)
qed

lemma run_front_cong:
  assumes "\<forall>k < run_key_start rng p s. rng' k = rng k"
  shows "run_front rng' p s = run_front rng p s"
proof -
  let ?N = "run_N s"
  let ?aBi = "map (\<lambda>k. randBit (rng (p + 2 * k))) [0..<?N]"
  let ?aBa = "map (\<lambda>k. randBasis (rng (p + 2 * k + 1))) [0..<?N]"
  have ge: "p + 2 * ?N \<le> run_key_start rng p s"
    unfolding run_key_start_eq
    using pulse_start_mono[of 0 ?N rng "run_noise s" "tampering s" ?aBi ?aBa "p + 2 * ?N"] by simp
  have bi: "map (\<lambda>k. randBit (rng' (p + 2 * k))) [0..<?N] = ?aBi"
    using assms ge by (intro map_cong refl) auto
  have ba: "map (\<lambda>k. randBasis (rng' (p + 2 * k + 1))) [0..<?N] = ?aBa"
    using assms ge by (intro map_cong refl) auto
  have pl: "prepare_loop rng ?N 0 p [] [] = (p + 2 * ?N, ?aBi, ?aBa)"
    using prepare_loop_eq[of 0 ?N rng p "[]" "[]"] by simp
  have "prepare_loop rng' ?N 0 p [] [] =
      (p + 2 * ?N, map (\<lambda>k. randBit (rng' (p + 2 * k))) [0..<?N],
       map (\<lambda>k. randBasis (rng' (p + 2 * k + 1))) [0..<?N])"
    using prepare_loop_eq[of 0 ?N rng' p "[]" "[]"] by simp
  then have pl': "prepare_loop rng' ?N 0 p [] [] = (p + 2 * ?N, ?aBi, ?aBa)"
    by (simp only: bi ba)
  have ml: "\<And>s4. measure_loop rng' (run_noise s) (tampering s) (run_pulseInterval s) ?aBi ?aBa ?N 0
                (s4, p + 2 * ?N, [], [], 0) =
              measure_loop rng (run_noise s) (tampering s) (run_pulseInterval s) ?aBi ?aBa ?N 0
                (s4, p + 2 * ?N, [], [], 0)"
    using measure_loop_cong[of rng "run_noise s" "tampering s" ?aBi ?aBa "p + 2 * ?N" ?N rng' 0
        "run_pulseInterval s" _ "[]" "[]" 0] assms
    unfolding run_key_start_eq by simp
  show ?thesis
    unfolding run_front_def Let_def pl pl' prod.case ml by (rule refl)
qed



section \<open>The two halves of a call\<close>

lemma run_front_collapse:
  "run_front rng p s = (fst (run_front rng p s), run_key_start rng p s, run_locals rng p s)"
  by (simp add: run_key_start_def run_locals_def)

lemmas run_front_facts = run_front_vars[OF run_front_collapse]

lemma run_locals_params:
  "l_N (run_locals rng p s) = run_N s"
  "l_sampleSize (run_locals rng p s) = run_sampleSize s"
  "l_pulseInterval (run_locals rng p s) = run_pulseInterval s"
  "l_noise (run_locals rng p s) = run_noise s"
  by (subst run_front_facts(1), simp)+

lemma run_locals_sifted:
  "l_keepIndices (run_locals rng p s) =
     filter (\<lambda>j. l_aliceBases (run_locals rng p s) ! j = l_bobBases (run_locals rng p s) ! j)
       [0..<run_N s]"
  "l_aBitsSifted (run_locals rng p s) =
     map (\<lambda>j. l_aliceBits (run_locals rng p s) ! j) (l_keepIndices (run_locals rng p s))"
  "l_bBitsSifted (run_locals rng p s) =
     map (\<lambda>j. l_bobResults (run_locals rng p s) ! j) (l_keepIndices (run_locals rng p s))"
  by (subst run_front_facts(1), simp)+

lemma run_locals_lengths:
  "length (l_aliceBits (run_locals rng p s)) = run_N s"
  "length (l_aliceBases (run_locals rng p s)) = run_N s"
  "length (l_bobBases (run_locals rng p s)) = run_N s"
  "length (l_bobResults (run_locals rng p s)) = run_N s"
  by (subst run_front_facts(1), simp)+

lemma run_unfold:
  "\<not> qkdRunning s \<Longrightarrow> runInitialization rng p s =
     run_estimate rng (run_key_start rng p s) (run_N s) (run_pulseInterval s) (run_sampleSize s)
       (tampering s) (l_tamperIntroducedCount (run_locals rng p s))
       (l_aliceBits (run_locals rng p s)) (l_bobResults (run_locals rng p s))
       (l_keepIndices (run_locals rng p s)) (l_aBitsSifted (run_locals rng p s))
       (fst (run_front rng p s))"
  unfolding runInitialization_def
  by (subst run_front_collapse) (simp add: run_locals_params)


lemma run_sample_empty_iff:
  "run_sample rng p s = [] \<longleftrightarrow> run_sampleSize s = 0 \<or> l_keepIndices (run_locals rng p s) = []"
  by (simp add: run_sample_def sample_of_def)

lemma run_front_state:
  "sifted (fst (run_front rng p s)) =
     \<lparr>s_indices = l_keepIndices (run_locals rng p s), s_aliceBits = l_aBitsSifted (run_locals rng p s),
      s_bobBits = l_bBitsSifted (run_locals rng p s)\<rparr>"
  "sharedKey (fst (run_front rng p s)) = None"
  "a_phi (aliceState (fst (run_front rng p s))) = []"
  "b_phi (bobState (fst (run_front rng p s))) = []"
  by (rule run_front_facts)+

section \<open>Rejected calls and the signature round\<close>

text \<open>
  Claim C9. A call in an invalid state is a no-op: \<open>runInitialization\<close> called while a run
  is active, and \<open>signAndSend\<close> called unless \<open>qkdDone\<close> holds and neither a run nor a
  signature simulation is in flight, return the engine state as it was and read no
  draw.
\<close>

theorem invalid_state_calls_are_noops:
  "(qkdRunning s \<longrightarrow> runInitialization rng p s = (s, p, RunRejected)) \<and>
   (\<not> qkdDone s \<or> qkdRunning s \<or> signRunning s \<longrightarrow> signAndSend rng q s = (s, q, SignRejected))"
  by (simp add: runInitialization_def signAndSend_def)

text \<open>Both calls on an engine whose run is in flight.\<close>

theorem invalid_state_calls_are_noops_witness:
  "qkdRunning st_busy \<and>
   runInitialization draws_zero 0 st_busy = (st_busy, 0, RunRejected) \<and>
   signAndSend draws_zero 0 st_busy = (st_busy, 0, SignRejected)"
proof -
  have h: "qkdRunning st_busy" by code_simp
  from invalid_state_calls_are_noops[of st_busy draws_zero 0 0] h show ?thesis by simp
qed

text \<open>
  Claim C8. When \<open>signAndSend\<close> passes its guard, the verification outcome is decided by
  the tamper flag alone: with tampering the verification fails, the log ends with the
  integrity-violation entry and its status line, and Bob's panel reports the failure;
  without tampering the signature is accepted. The only other input that shows in the
  result is the draw printed as the data value, which is the first log entry.
\<close>

theorem sign_outcome_follows_tamper_flag:
  assumes "qkdDone s" and "\<not> qkdRunning s" and "\<not> signRunning s"
  shows "sign_result rng p s = (if tampering s then SignTamperDetected else SignVerified) \<and>
         logs (sign_state rng p s) =
           logs s @ [LogDataCollected \<lfloor>rng p * 1000000\<rfloor>, LogEncodedP, LogText StComputingS,
                     LogComputedS, LogSentP, LogSentS, LogSentID, LogText StBobComputes] @
           (if tampering s then [LogTamperQIBS, LogText StTamperDuringQIBS]
            else [LogText StSignatureAccepted, LogAccepted]) \<and>
         currentStatus (sign_state rng p s) =
           (if tampering s then StTamperDuringQIBS else StSignatureAccepted) \<and>
         b_text (bobState (sign_state rng p s)) =
           (if tampering s then TxVerifyFailed else TxVerifyComplete) \<and>
         signRunning (sign_state rng p s) = False"
  using assms by (simp add: signAndSend_def Let_def)

text \<open>After a completed run: once with the tamper button pressed, once without.\<close>

theorem sign_outcome_follows_tamper_flag_witness:
  "qkdDone st_done_tampered \<and> \<not> qkdRunning st_done_tampered \<and> \<not> signRunning st_done_tampered \<and>
   tampering st_done_tampered \<and>
   sign_result draws_zero 0 st_done_tampered = SignTamperDetected \<and>
   currentStatus (sign_state draws_zero 0 st_done_tampered) = StTamperDuringQIBS \<and>
   qkdDone st_done \<and> \<not> qkdRunning st_done \<and> \<not> signRunning st_done \<and> \<not> tampering st_done \<and>
   sign_result draws_high 0 st_done = SignVerified \<and>
   currentStatus (sign_state draws_high 0 st_done) = StSignatureAccepted"
proof -
  have a: "qkdDone st_done_tampered" "\<not> qkdRunning st_done_tampered"
    "\<not> signRunning st_done_tampered" "tampering st_done_tampered"
    by code_simp+
  have b: "qkdDone st_done" "\<not> qkdRunning st_done" "\<not> signRunning st_done" "\<not> tampering st_done"
    by code_simp+
  from sign_outcome_follows_tamper_flag[OF a(1-3), of draws_zero 0]
       sign_outcome_follows_tamper_flag[OF b(1-3), of draws_high 0] a b
  show ?thesis by simp
qed

section \<open>Tampering and the abort decision\<close>

text \<open>
  Claim C1, amended. If tampering is on and the revealed sample is not empty (the sample
  size is positive and at least one index was kept), the run ends in one of the two
  aborts, whatever the sample error rate is, and the shared key stays null; the error
  rate only selects which of the two aborts is reported.
\<close>

theorem tamper_aborts_on_nonempty_sample:
  assumes "\<not> qkdRunning s" and "tampering s"
    and "0 < run_sampleSize s" and "l_keepIndices (run_locals rng p s) \<noteq> []"
  shows "run_result rng p s =
           (if sample_qber (run_sample rng p s) \<le> 45 / 100 then AbortedEavesdrop
            else AbortedHighQber) \<and>
         sharedKey (run_state rng p s) = None \<and>
         qkdDone (run_state rng p s) = False \<and>
         qkdRunning (run_state rng p s) = False \<and>
         qber (run_state rng p s) = Some (sample_qber (run_sample rng p s))"
proof -
  have ne: "tampering s \<and> run_sample rng p s \<noteq> []"
    using assms by (simp add: run_sample_empty_iff)
  show ?thesis
    unfolding run_unfold[OF assms(1)]
    using run_estimate_props(3)[OF ne[unfolded run_sample_def]]
    by (simp add: run_estimate_props(2) run_front_state run_sample_def)
qed

text \<open>The tampered engine with all draws 0: every bit is flipped, the run aborts.\<close>

theorem tamper_aborts_on_nonempty_sample_witness:
  "\<not> qkdRunning st_tampered \<and> tampering st_tampered \<and> 0 < run_sampleSize st_tampered \<and>
   l_keepIndices (run_locals draws_zero 0 st_tampered) \<noteq> [] \<and>
   run_result draws_zero 0 st_tampered = AbortedHighQber \<and>
   sharedKey (run_state draws_zero 0 st_tampered) = None \<and>
   qkdDone (run_state draws_zero 0 st_tampered) = False"
proof -
  have h: "\<not> qkdRunning st_tampered" "tampering st_tampered" "0 < run_sampleSize st_tampered"
    "l_keepIndices (run_locals draws_zero 0 st_tampered) \<noteq> []"
    by code_simp+
  have q: "\<not> sample_qber (run_sample draws_zero 0 st_tampered) \<le> 45 / 100"
    by code_simp
  from tamper_aborts_on_nonempty_sample[OF h] h q show ?thesis by simp
qed

text \<open>
  Claim C1 as stated fails: with tampering on, the default parameters and draws that
  make every basis of Bob differ from Alice's, the sifted set and so the sample are
  empty, the run is not aborted and the shared key is set.
\<close>

theorem tamper_run_without_abort:
  "tampering st_tampered \<and> \<not> qkdRunning st_tampered \<and>
   run_result draws_no_match 0 st_tampered = RunPhiWithheld \<and>
   sharedKey (run_state draws_no_match 0 st_tampered) = Some ''1000100010''"
  by code_simp

text \<open>
  Claim C10. If tampering is on and the revealed sample is empty (the sample size is 0 or
  no index was kept), the run is not aborted: Bob's sifted bits are overwritten with
  Alice's, the shared key is set to a string of max(2N, number of kept indices) bits,
  \<phi> is withheld and \<open>qkdDone\<close> ends false.
\<close>

theorem tamper_with_empty_sample_finishes:
  assumes "\<not> qkdRunning s" and "tampering s"
    and "run_sampleSize s = 0 \<or> l_keepIndices (run_locals rng p s) = []"
  shows "run_result rng p s = RunPhiWithheld \<and>
         sharedKey (run_state rng p s) =
           Some (key_bits rng (run_key_start rng p s)
                   (max (2 * run_N s) (length (l_keepIndices (run_locals rng p s))))) \<and>
         length (the (sharedKey (run_state rng p s))) =
           max (2 * run_N s) (length (l_keepIndices (run_locals rng p s))) \<and>
         sifted (run_state rng p s) =
           \<lparr>s_indices = l_keepIndices (run_locals rng p s),
            s_aliceBits = l_aBitsSifted (run_locals rng p s),
            s_bobBits = l_aBitsSifted (run_locals rng p s)\<rparr> \<and>
         a_phi (aliceState (run_state rng p s)) = [] \<and>
         b_phi (bobState (run_state rng p s)) = [] \<and>
         qkdDone (run_state rng p s) = False \<and>
         qkdRunning (run_state rng p s) = False \<and>
         revealedSample (run_state rng p s) = [] \<and>
         qber (run_state rng p s) = Some 0"
proof -
  have e: "run_sample rng p s = []"
    using assms(3) by (simp add: run_sample_empty_iff)
  then have ne: "\<not> (tampering s \<and> run_sample rng p s \<noteq> [])" by simp
  show ?thesis
    unfolding run_unfold[OF assms(1)]
    using run_estimate_props(4)[OF ne[unfolded run_sample_def]] assms(2) e
    by (simp add: run_estimate_props(1,2) run_front_state run_sample_def[symmetric]
          run_locals_sifted(2) key_bits_def sample_qber_def)
qed

text \<open>The tampered engine with sample size 0.\<close>

theorem tamper_with_empty_sample_finishes_witness:
  "\<not> qkdRunning st_tampered_nosample \<and> tampering st_tampered_nosample \<and>
   run_sampleSize st_tampered_nosample = 0 \<and>
   run_result draws_zero 0 st_tampered_nosample = RunPhiWithheld \<and>
   sharedKey (run_state draws_zero 0 st_tampered_nosample) = Some ''0000000000'' \<and>
   qkdDone (run_state draws_zero 0 st_tampered_nosample) = False"
proof -
  have h: "\<not> qkdRunning st_tampered_nosample" "tampering st_tampered_nosample"
    "run_sampleSize st_tampered_nosample = 0"
    by code_simp+
  have k: "key_bits draws_zero (run_key_start draws_zero 0 st_tampered_nosample)
             (max (2 * run_N st_tampered_nosample)
                (length (l_keepIndices (run_locals draws_zero 0 st_tampered_nosample)))) =
           ''0000000000''"
    by code_simp
  from tamper_with_empty_sample_finishes[OF h(1,2) disjI1[OF h(3)], of draws_zero 0] h k
  show ?thesis by simp
qed

section \<open>The measuring loop and the layered description\<close>

lemma measured_eq:
  "measured rng noise tamp pI aliceBits aliceBases N s p =
     (pulse_start rng noise tamp aliceBits aliceBases p N,
      map (pulse_basis rng noise tamp aliceBits aliceBases p) [0..<N],
      map (pulse_result rng noise tamp aliceBits aliceBases p) [0..<N],
      length (filter (pulse_flipped rng noise tamp aliceBits aliceBases p) [0..<N]))"
  using measure_loop_layered[of 0 N rng noise tamp pI aliceBits aliceBases s p]
  by (simp add: measured_def)

lemma pulse_flipped_eq:
  "pulse_flipped rng noise tamp aliceBits aliceBases p j =
     (tamp \<and> rng (pulse_tamper_pos rng noise tamp aliceBits aliceBases p j) < 1 / 2)"
  by (simp add: pulse_flipped_def pulse_tamper_pos_def layered_pulse_def Let_def)

lemma pulse_basis_eq:
  "pulse_basis rng noise tamp aliceBits aliceBases p i =
     randBasis (rng (pulse_start rng noise tamp aliceBits aliceBases p i))"
  by (simp add: pulse_basis_def layered_pulse_def Let_def)

lemma pulse_tamper_pos_ge:
  "pulse_start rng noise tamp aliceBits aliceBases p i + 2
     \<le> pulse_tamper_pos rng noise tamp aliceBits aliceBases p i"
  by (simp add: pulse_tamper_pos_def Let_def)

lemma pulse_start_Suc_eq:
  "pulse_start rng noise tamp aliceBits aliceBases p (Suc i) =
     (if tamp then pulse_tamper_pos rng noise tamp aliceBits aliceBases p i + 1
      else pulse_tamper_pos rng noise tamp aliceBits aliceBases p i)"
  by (simp add: pulse_tamper_pos_def layered_pulse_def Let_def)

lemma pulse_result_eq:
  "pulse_result rng noise tamp aliceBits aliceBases p i =
     (let q = pulse_start rng noise tamp aliceBits aliceBases p i;
          raw = (if rng (q + 1) < noise then randBit (rng (q + 2))
                 else if pulse_basis rng noise tamp aliceBits aliceBases p i = aliceBases ! i
                      then aliceBits ! i
                 else randBit (rng (q + 2)))
      in if tamp \<and> rng (pulse_tamper_pos rng noise tamp aliceBits aliceBases p i) < 1 / 2
         then 1 - raw else raw)"
  unfolding pulse_result_def pulse_basis_def pulse_tamper_pos_def layered_pulse_def Let_def
  by (cases tamp) auto

text \<open>
  Claim C4. For every pulse \<open>i\<close> of the measuring loop, with \<open>q\<close> the position of the pulse's
  first draw: Bob's basis is the basis drawn at \<open>q\<close>; the raw outcome is a freshly drawn
  bit when the draw at \<open>q + 1\<close> is below the noise level, otherwise Alice's bit when the
  bases are equal and a freshly drawn bit when they differ; the outcome is the raw
  outcome, flipped exactly when tampering is on and the pulse's own tamper draw, which
  lies after the draws of the raw outcome, is below 1/2. The tamper draw is read only
  under tampering, and the flip counter ends as the number of pulses that were flipped.
\<close>

theorem measurement_follows_layers:
  assumes "i < N" and "length aliceBits = N" and "length aliceBases = N"
    and "\<forall>b \<in> set aliceBits. b \<le> 1"
  shows "case measured rng noise tamp pulseInterval aliceBits aliceBases N s p of
           (p', bobBases, bobResults, tamperIntroducedCount) \<Rightarrow>
             let q = pulse_start rng noise tamp aliceBits aliceBases p i;
                 qt = pulse_tamper_pos rng noise tamp aliceBits aliceBases p i;
                 raw = (if rng (q + 1) < noise then randBit (rng (q + 2))
                        else if bobBases ! i = aliceBases ! i then aliceBits ! i
                        else randBit (rng (q + 2)))
             in length bobBases = N \<and> length bobResults = N \<and>
                bobBases ! i = randBasis (rng q) \<and>
                bobResults ! i = (if tamp \<and> rng qt < 1 / 2 then 1 - raw else raw) \<and>
                bobResults ! i \<le> 1 \<and>
                q + 2 \<le> qt \<and>
                pulse_start rng noise tamp aliceBits aliceBases p (Suc i) =
                  (if tamp then qt + 1 else qt) \<and>
                tamperIntroducedCount =
                  length (filter (\<lambda>j. tamp \<and>
                     rng (pulse_tamper_pos rng noise tamp aliceBits aliceBases p j) < 1 / 2) [0..<N])"
proof -
  have b: "map (pulse_basis rng noise tamp aliceBits aliceBases p) [0..<N] ! i =
      randBasis (rng (pulse_start rng noise tamp aliceBits aliceBases p i))"
    using assms(1) by (simp add: pulse_basis_eq)
  have r: "map (pulse_result rng noise tamp aliceBits aliceBases p) [0..<N] ! i =
      pulse_result rng noise tamp aliceBits aliceBases p i"
    using assms(1) by simp
  have c: "filter (pulse_flipped rng noise tamp aliceBits aliceBases p) [0..<N] =
      filter (\<lambda>j. tamp \<and> rng (pulse_tamper_pos rng noise tamp aliceBits aliceBases p j) < 1 / 2) [0..<N]"
    by (rule filter_cong) (simp_all only: pulse_flipped_eq)
  have "aliceBits ! i \<le> 1"
    using assms(1,2,4) by simp
  then have le: "pulse_result rng noise tamp aliceBits aliceBases p i \<le> 1"
    by (simp add: pulse_result_eq Let_def randBit_def)
  show ?thesis
    unfolding measured_eq prod.case Let_def b r c
    using pulse_tamper_pos_ge[of rng noise tamp aliceBits aliceBases p i]
      pulse_start_Suc_eq[of rng noise tamp aliceBits aliceBases p i]
      pulse_result_eq[of rng noise tamp aliceBits aliceBases p i, unfolded Let_def pulse_basis_eq]
      le
    by simp
qed

text \<open>Two pulses under tampering with all draws 0: both outcomes are flipped.\<close>

theorem measurement_follows_layers_witness:
  "(1::nat) < 2 \<and> length [0, 1 :: bit] = 2 \<and> length [Z, X] = 2 \<and>
   measured draws_zero 0 True 1000 [0, 1] [Z, X] 2 st_tampered 4 = (11, [Z, Z], [1, 1], 2) \<and>
   pulse_start draws_zero 0 True [0, 1] [Z, X] 4 1 = 7 \<and>
   pulse_tamper_pos draws_zero 0 True [0, 1] [Z, X] 4 1 = 10"
proof -
  have h: "(1::nat) < 2" "length [0, 1 :: bit] = 2" "length [Z, X] = 2"
    "\<forall>b \<in> set [0, 1 :: bit]. b \<le> 1"
    by simp_all
  have m: "measured draws_zero 0 True 1000 [0, 1] [Z, X] 2 st_tampered 4 = (11, [Z, Z], [1, 1], 2)"
    "pulse_start draws_zero 0 True [0, 1] [Z, X] 4 1 = 7"
    "pulse_tamper_pos draws_zero 0 True [0, 1] [Z, X] 4 1 = 10"
    by code_simp+
  from measurement_follows_layers[OF h, where rng = draws_zero and noise = 0 and tamp = True
        and pulseInterval = 1000 and s = st_tampered and p = 4] m h
  show ?thesis by simp
qed

section \<open>Sifting\<close>

text \<open>
  Claim C2. For \<open>N \<ge> 1\<close> and four arrays of length \<open>N\<close>, the sifting loop returns the indices
  below \<open>N\<close> at which the two bases are equal, in increasing order, together with Alice's
  bit and Bob's result at each kept index. The loop takes no draw sequence and returns
  for every input.
\<close>

theorem sifting_keeps_matching_bases:
  assumes "1 \<le> N"
    and "length aliceBases = N" and "length bobBases = N"
    and "length aliceBits = N" and "length bobResults = N"
  shows "sift_loop N 0 aliceBases bobBases aliceBits bobResults ([], [], []) =
           (filter (\<lambda>i. aliceBases ! i = bobBases ! i) [0..<N],
            map (\<lambda>i. aliceBits ! i) (filter (\<lambda>i. aliceBases ! i = bobBases ! i) [0..<N]),
            map (\<lambda>i. bobResults ! i) (filter (\<lambda>i. aliceBases ! i = bobBases ! i) [0..<N])) \<and>
         set (filter (\<lambda>i. aliceBases ! i = bobBases ! i) [0..<N]) =
           {i. i < N \<and> aliceBases ! i = bobBases ! i} \<and>
         sorted_wrt (<) (filter (\<lambda>i. aliceBases ! i = bobBases ! i) [0..<N])"
proof -
  have "sorted_wrt (<) [0..<N]" by (simp add: sorted_wrt_upt)
  then have "sorted_wrt (<) (filter (\<lambda>i. aliceBases ! i = bobBases ! i) [0..<N])"
    by (rule sorted_wrt_filter)
  then show ?thesis
    using sift_loop_eq[of 0 N aliceBases bobBases aliceBits bobResults "[]" "[]" "[]"]
    by auto
qed

text \<open>Four pulses with bases ZXZX against ZZXX: indices 0 and 3 are kept.\<close>

theorem sifting_keeps_matching_bases_witness:
  "(1::nat) \<le> 4 \<and> length [Z, X, Z, X] = 4 \<and> length [Z, Z, X, X] = 4 \<and>
   length [0, 1, 1, 0 :: bit] = 4 \<and> length [0, 1, 0, 0 :: bit] = 4 \<and>
   sift_loop 4 0 [Z, X, Z, X] [Z, Z, X, X] [0, 1, 1, 0] [0, 1, 0, 0] ([], [], []) =
     ([0, 3], [0, 0], [0, 0])"
proof -
  have f: "filter (\<lambda>i. [Z, X, Z, X] ! i = [Z, Z, X, X] ! i) [0..<4] = [0, 3]"
    by code_simp
  from sifting_keeps_matching_bases[of 4 "[Z, X, Z, X]" "[Z, Z, X, X]" "[0, 1, 1, 0]" "[0, 1, 0, 0]"]
  show ?thesis unfolding f by simp
qed

section \<open>The outcome of a call and the state it leaves\<close>

lemma run_not_aborted_iff:
  assumes "\<not> qkdRunning s"
  shows "(run_result rng p s = RunCompleted \<or> run_result rng p s = RunPhiWithheld) \<longleftrightarrow>
           \<not> (tampering s \<and> run_sample rng p s \<noteq> [])"
    and "(run_result rng p s = AbortedEavesdrop \<or> run_result rng p s = AbortedHighQber) \<longleftrightarrow>
           (tampering s \<and> run_sample rng p s \<noteq> [])"
    and "run_result rng p s \<noteq> RunRejected"
proof -
  have a: "tampering s \<and> run_sample rng p s \<noteq> [] \<Longrightarrow>
      run_result rng p s = AbortedEavesdrop \<or> run_result rng p s = AbortedHighQber"
    unfolding run_unfold[OF assms]
    using run_estimate_props(3)[of "tampering s" "run_sampleSize s" "l_keepIndices (run_locals rng p s)"
        "l_aliceBits (run_locals rng p s)" "l_bobResults (run_locals rng p s)"]
    by (simp add: run_sample_def)
  have b: "\<not> (tampering s \<and> run_sample rng p s \<noteq> []) \<Longrightarrow>
      run_result rng p s = RunCompleted \<or> run_result rng p s = RunPhiWithheld"
    unfolding run_unfold[OF assms]
    using run_estimate_props(4)[of "tampering s" "run_sampleSize s" "l_keepIndices (run_locals rng p s)"
        "l_aliceBits (run_locals rng p s)" "l_bobResults (run_locals rng p s)"]
    by (simp add: run_sample_def)
  show "(run_result rng p s = RunCompleted \<or> run_result rng p s = RunPhiWithheld) \<longleftrightarrow>
           \<not> (tampering s \<and> run_sample rng p s \<noteq> [])"
  proof (cases "tampering s \<and> run_sample rng p s \<noteq> []")
    case True
    with a[OF True] show ?thesis by auto
  next
    case False
    with b[OF False] show ?thesis by auto
  qed
  show "(run_result rng p s = AbortedEavesdrop \<or> run_result rng p s = AbortedHighQber) \<longleftrightarrow>
           (tampering s \<and> run_sample rng p s \<noteq> [])"
  proof (cases "tampering s \<and> run_sample rng p s \<noteq> []")
    case True
    with a[OF True] show ?thesis by auto
  next
    case False
    with b[OF False] show ?thesis by auto
  qed
  show "run_result rng p s \<noteq> RunRejected"
  proof (cases "tampering s \<and> run_sample rng p s \<noteq> []")
    case True
    with a[OF True] show ?thesis by auto
  next
    case False
    with b[OF False] show ?thesis by auto
  qed
qed

lemma run_sample_state:
  assumes "\<not> qkdRunning s"
  shows "revealedSample (run_state rng p s) = run_sample rng p s"
    and "qber (run_state rng p s) = Some (sample_qber (run_sample rng p s))"
  unfolding run_unfold[OF assms] run_sample_def
  by (rule run_estimate_props)+

lemma run_not_aborted_state:
  assumes "\<not> qkdRunning s" and "\<not> (tampering s \<and> run_sample rng p s \<noteq> [])"
  shows "sharedKey (run_state rng p s) =
           Some (key_bits rng (run_key_start rng p s)
                   (max (2 * run_N s) (length (l_keepIndices (run_locals rng p s)))))"
    and "sifted (run_state rng p s) =
           (sifted (fst (run_front rng p s)))\<lparr>s_bobBits := l_aBitsSifted (run_locals rng p s)\<rparr>"
  unfolding run_unfold[OF assms(1)]
  using run_estimate_props(4)[OF assms(2)[unfolded run_sample_def]]
  by (simp_all add: run_locals_sifted(2))

lemma run_aborted_state:
  assumes "\<not> qkdRunning s" and "tampering s \<and> run_sample rng p s \<noteq> []"
  shows "sharedKey (run_state rng p s) = None"
    and "sifted (run_state rng p s) = sifted (fst (run_front rng p s))"
  unfolding run_unfold[OF assms(1)]
  using run_estimate_props(3)[OF assms(2)[unfolded run_sample_def]]
  by (simp_all add: run_front_state)

lemma zip_index_maps:
  "zip xs (zip (map f xs) (map g xs)) = map (\<lambda>i. (i, f i, g i)) xs"
  by (induction xs) auto

lemma run_keepIndices_sorted:
  "sorted_wrt (<) (l_keepIndices (run_locals rng p s))"
proof -
  have "sorted_wrt (<) [0..<run_N s]" by (simp add: sorted_wrt_upt)
  then show ?thesis
    unfolding run_locals_sifted(1) by (rule sorted_wrt_filter)
qed

section \<open>The revealed sample and its error rate\<close>

text \<open>
  Claim C6. The sample a call reveals is the first min(sampleSize, number of sifted
  pairs) sifted pairs, in the order of sifting, which is increasing in the index; each
  entry carries Alice's bit and Bob's result of its index.
\<close>

theorem sample_is_prefix_of_sifted:
  assumes "\<not> qkdRunning s"
  shows "let v = run_locals rng p s;
             n = min (run_sampleSize s) (length (l_keepIndices v));
             sample = revealedSample (run_state rng p s)
         in sample =
              map (\<lambda>(i, a, b). \<lparr>r_index = i, r_alice = a, r_bob = b\<rparr>)
                (take n (zip (l_keepIndices v) (zip (l_aBitsSifted v) (l_bBitsSifted v)))) \<and>
            length sample = n \<and>
            map r_index sample = take n (l_keepIndices v) \<and>
            sorted_wrt (<) (map r_index sample) \<and>
            (\<forall>e \<in> set sample. r_alice e = l_aliceBits v ! r_index e \<and>
                               r_bob e = l_bobResults v ! r_index e)"
proof -
  let ?v = "run_locals rng p s"
  let ?n = "min (run_sampleSize s) (length (l_keepIndices ?v))"
  have t: "take ?n (l_keepIndices ?v) = take (run_sampleSize s) (l_keepIndices ?v)"
    by (simp add: min_def)
  have s: "revealedSample (run_state rng p s) =
      map (\<lambda>i. \<lparr>r_index = i, r_alice = l_aliceBits ?v ! i, r_bob = l_bobResults ?v ! i\<rparr>)
        (take ?n (l_keepIndices ?v))"
    unfolding run_sample_state(1)[OF assms] t by (simp add: run_sample_def sample_of_def)
  have z: "zip (l_keepIndices ?v) (zip (l_aBitsSifted ?v) (l_bBitsSifted ?v)) =
      map (\<lambda>i. (i, l_aliceBits ?v ! i, l_bobResults ?v ! i)) (l_keepIndices ?v)"
    by (subst run_locals_sifted(2), subst run_locals_sifted(3)) (rule zip_index_maps)
  have i: "map r_index (revealedSample (run_state rng p s)) = take ?n (l_keepIndices ?v)"
    unfolding s by (simp add: comp_def)
  have o: "sorted_wrt (<) (take ?n (l_keepIndices ?v))"
    using run_keepIndices_sorted[of rng p s] by (rule sorted_wrt_take)
  have l: "length (revealedSample (run_state rng p s)) = ?n"
    unfolding s by simp
  have e: "\<forall>e \<in> set (revealedSample (run_state rng p s)).
      r_alice e = l_aliceBits ?v ! r_index e \<and> r_bob e = l_bobResults ?v ! r_index e"
    unfolding s by auto
  have m: "revealedSample (run_state rng p s) =
      map (\<lambda>(i, a, b). \<lparr>r_index = i, r_alice = a, r_bob = b\<rparr>)
        (take ?n (zip (l_keepIndices ?v) (zip (l_aBitsSifted ?v) (l_bBitsSifted ?v))))"
    unfolding s z by (simp add: take_map comp_def)
  show ?thesis
    unfolding Let_def using m l i o e by (simp only: simp_thms)
qed

text \<open>The tampered engine with all draws 0: five pairs are sifted, two revealed.\<close>

theorem sample_is_prefix_of_sifted_witness:
  "\<not> qkdRunning st_tampered \<and>
   l_keepIndices (run_locals draws_zero 0 st_tampered) = [0, 1, 2, 3, 4] \<and>
   revealedSample (run_state draws_zero 0 st_tampered) =
     [\<lparr>r_index = 0, r_alice = 0, r_bob = 1\<rparr>, \<lparr>r_index = 1, r_alice = 0, r_bob = 1\<rparr>]"
proof -
  have h: "\<not> qkdRunning st_tampered" by code_simp
  have v: "l_keepIndices (run_locals draws_zero 0 st_tampered) = [0, 1, 2, 3, 4]"
    "l_aBitsSifted (run_locals draws_zero 0 st_tampered) = [0, 0, 0, 0, 0]"
    "l_bBitsSifted (run_locals draws_zero 0 st_tampered) = [1, 1, 1, 1, 1]"
    "run_sampleSize st_tampered = 2"
    by code_simp+
  from sample_is_prefix_of_sifted[OF h, of draws_zero 0] h show ?thesis
    unfolding Let_def v by simp
qed

text \<open>
  Claim C5 as stated fails: with one qubit on the noisy channel and the default sample
  size 2, one pair is sifted and revealed, it is a mismatch, and the error rate is 1,
  not 1/2.
\<close>

theorem qber_not_over_sample_size:
  "\<not> qkdRunning st_noisy_one \<and> run_sampleSize st_noisy_one = 2 \<and>
   sample_errors (revealedSample (run_state draws_one_error 0 st_noisy_one)) = 1 \<and>
   qber (run_state draws_one_error 0 st_noisy_one) = Some 1 \<and>
   qber (run_state draws_one_error 0 st_noisy_one) \<noteq>
     Some (of_nat (sample_errors (revealedSample (run_state draws_one_error 0 st_noisy_one))) /
           of_nat (run_sampleSize st_noisy_one))"
  by code_simp

text \<open>
  Claim C5, amended. The error rate of a call is the number of mismatches in the revealed
  sample divided by the number of revealed pairs, which is min(sampleSize, number of
  sifted pairs), and it is 0 when nothing is revealed; in particular it is 0 when
  sampleSize is 0, and it is the number of mismatches divided by sampleSize when at least
  sampleSize pairs were sifted.
\<close>

theorem qber_over_revealed_sample:
  assumes "\<not> qkdRunning s"
  shows "length (revealedSample (run_state rng p s)) =
           min (run_sampleSize s) (length (l_keepIndices (run_locals rng p s))) \<and>
         qber (run_state rng p s) =
           Some (if revealedSample (run_state rng p s) = [] then 0
                 else of_nat (sample_errors (revealedSample (run_state rng p s))) /
                      of_nat (length (revealedSample (run_state rng p s)))) \<and>
         (run_sampleSize s = 0 \<longrightarrow> qber (run_state rng p s) = Some 0) \<and>
         (0 < run_sampleSize s \<and> run_sampleSize s \<le> length (l_keepIndices (run_locals rng p s)) \<longrightarrow>
            qber (run_state rng p s) =
              Some (of_nat (sample_errors (revealedSample (run_state rng p s))) /
                    of_nat (run_sampleSize s)))"
proof -
  have l: "length (run_sample rng p s) =
      min (run_sampleSize s) (length (l_keepIndices (run_locals rng p s)))"
    by (simp add: run_sample_def sample_of_def min.commute)
  show ?thesis
    unfolding run_sample_state[OF assms]
    using l by (auto simp: sample_qber_def)
qed

text \<open>One qubit on the noisy channel, measured wrongly.\<close>

theorem qber_over_revealed_sample_witness:
  "\<not> qkdRunning st_noisy_one \<and>
   length (revealedSample (run_state draws_one_error 0 st_noisy_one)) = 1 \<and>
   qber (run_state draws_one_error 0 st_noisy_one) = Some 1"
proof -
  have h: "\<not> qkdRunning st_noisy_one" by code_simp
  have e: "revealedSample (run_state draws_one_error 0 st_noisy_one) =
      [\<lparr>r_index = 0, r_alice = 0, r_bob = 1\<rparr>]"
    by code_simp
  from qber_over_revealed_sample[OF h, of draws_one_error 0] h show ?thesis
    unfolding e by (simp add: sample_errors_def)
qed

section \<open>Error correction and the key\<close>

text \<open>
  Claim C7. In a call that is not aborted, the sifted state after the call is the sifted
  state after sifting with Bob's bits replaced by Alice's: indices, Alice's bits and the
  common length are unchanged. In an aborted call the sifted state is left as sifting
  set it, so the correction is reached only by calls that were not aborted.
\<close>

theorem error_correction_overwrites_bob_bits:
  assumes "\<not> qkdRunning s"
  shows "let v = run_locals rng p s;
             before = sifted (fst (run_front rng p s));
             after = sifted (run_state rng p s)
         in before = \<lparr>s_indices = l_keepIndices v, s_aliceBits = l_aBitsSifted v,
                       s_bobBits = l_bBitsSifted v\<rparr> \<and>
            length (s_aliceBits before) = length (s_indices before) \<and>
            length (s_bobBits before) = length (s_indices before) \<and>
            (run_result rng p s = RunCompleted \<or> run_result rng p s = RunPhiWithheld \<longrightarrow>
               after = before\<lparr>s_bobBits := s_aliceBits before\<rparr>) \<and>
            (run_result rng p s = AbortedEavesdrop \<or> run_result rng p s = AbortedHighQber \<longrightarrow>
               after = before) \<and>
            run_result rng p s \<noteq> RunRejected"
proof -
  have l: "length (l_aBitsSifted (run_locals rng p s)) = length (l_keepIndices (run_locals rng p s))"
    "length (l_bBitsSifted (run_locals rng p s)) = length (l_keepIndices (run_locals rng p s))"
    by (subst run_locals_sifted(2), simp) (subst run_locals_sifted(3), simp)
  show ?thesis
  proof (cases "tampering s \<and> run_sample rng p s \<noteq> []")
    case True
    then have "\<not> (run_result rng p s = RunCompleted \<or> run_result rng p s = RunPhiWithheld)"
      using run_not_aborted_iff(1)[OF assms, of rng p] by simp
    then show ?thesis
      unfolding Let_def
      using run_aborted_state(2)[OF assms True] run_not_aborted_iff(3)[OF assms, of rng p] l
      by (simp add: run_front_state(1))
  next
    case False
    then have "\<not> (run_result rng p s = AbortedEavesdrop \<or> run_result rng p s = AbortedHighQber)"
      using run_not_aborted_iff(2)[OF assms, of rng p] by simp
    then show ?thesis
      unfolding Let_def
      using run_not_aborted_state(2)[OF assms False] run_not_aborted_iff(3)[OF assms, of rng p] l
      by (simp add: run_front_state(1))
  qed
qed

text \<open>One qubit on the noisy channel: Bob's wrong bit is overwritten.\<close>

theorem error_correction_overwrites_bob_bits_witness:
  "\<not> qkdRunning st_noisy_one \<and>
   run_result draws_one_error 0 st_noisy_one = RunCompleted \<and>
   sifted (fst (run_front draws_one_error 0 st_noisy_one)) =
     \<lparr>s_indices = [0], s_aliceBits = [0], s_bobBits = [1]\<rparr> \<and>
   sifted (run_state draws_one_error 0 st_noisy_one) =
     \<lparr>s_indices = [0], s_aliceBits = [0], s_bobBits = [0]\<rparr>"
proof -
  have h: "\<not> qkdRunning st_noisy_one" by code_simp
  have r: "run_result draws_one_error 0 st_noisy_one = RunCompleted" by code_simp
  have v: "l_keepIndices (run_locals draws_one_error 0 st_noisy_one) = [0]"
    "l_aBitsSifted (run_locals draws_one_error 0 st_noisy_one) = [0]"
    "l_bBitsSifted (run_locals draws_one_error 0 st_noisy_one) = [1]"
    by code_simp+
  from error_correction_overwrites_bob_bits[OF h, of draws_one_error 0] r h show ?thesis
    unfolding Let_def v by simp
qed

text \<open>
  Claim C3. In a call that is not aborted, the shared key is a string of
  max(2N, number of sifted pairs) characters, so at least 2N; its k-th character is 0 or
  1 as the k-th draw after the measuring loop is below 1/2 or not. Those draws are fresh:
  everything the call computed up to the end of sifting, the sifted bits included, is
  the same for any draw sequence that agrees with this one before the first key draw.
\<close>

theorem key_is_fresh_draws:
  assumes "\<not> qkdRunning s"
    and "run_result rng p s = RunCompleted \<or> run_result rng p s = RunPhiWithheld"
  shows "sharedKey (run_state rng p s) =
           Some (key_bits rng (run_key_start rng p s)
                   (max (2 * run_N s) (length (l_keepIndices (run_locals rng p s))))) \<and>
         length (the (sharedKey (run_state rng p s))) =
           max (2 * run_N s) (length (l_keepIndices (run_locals rng p s))) \<and>
         2 * run_N s \<le> length (the (sharedKey (run_state rng p s))) \<and>
         (\<forall>k < length (the (sharedKey (run_state rng p s))).
            the (sharedKey (run_state rng p s)) ! k =
              (if rng (run_key_start rng p s + k) < 1 / 2 then CHR ''0'' else CHR ''1'')) \<and>
         (\<forall>rng'. (\<forall>k < run_key_start rng p s. rng' k = rng k) \<longrightarrow>
            run_front rng' p s = run_front rng p s)"
proof -
  have na: "\<not> (tampering s \<and> run_sample rng p s \<noteq> [])"
    using run_not_aborted_iff(1)[OF assms(1)] assms(2) by simp
  have c: "\<And>r. bit_char (randBit r) = (if r < 1 / 2 then CHR ''0'' else CHR ''1'')"
    by (simp add: bit_char_def randBit_def)
  have k: "sharedKey (run_state rng p s) =
      Some (key_bits rng (run_key_start rng p s)
              (max (2 * run_N s) (length (l_keepIndices (run_locals rng p s)))))"
    by (rule run_not_aborted_state(1)[OF assms(1) na])
  have f: "\<forall>rng'. (\<forall>k < run_key_start rng p s. rng' k = rng k) \<longrightarrow>
      run_front rng' p s = run_front rng p s"
    using run_front_cong[of rng p s] by blast
  have "length (the (sharedKey (run_state rng p s))) =
           max (2 * run_N s) (length (l_keepIndices (run_locals rng p s))) \<and>
         2 * run_N s \<le> length (the (sharedKey (run_state rng p s))) \<and>
         (\<forall>k < length (the (sharedKey (run_state rng p s))).
            the (sharedKey (run_state rng p s)) ! k =
              (if rng (run_key_start rng p s + k) < 1 / 2 then CHR ''0'' else CHR ''1''))"
    unfolding k by (simp add: key_bits_def c)
  with k f show ?thesis by blast
qed

text \<open>The default run on the perfect channel with all draws 0.\<close>

theorem key_is_fresh_draws_witness:
  "\<not> qkdRunning st_perfect \<and> run_result draws_zero 0 st_perfect = RunCompleted \<and>
   run_N st_perfect = 5 \<and> run_key_start draws_zero 0 st_perfect = 20 \<and>
   sharedKey (run_state draws_zero 0 st_perfect) = Some ''0000000000''"
proof -
  have h: "\<not> qkdRunning st_perfect" "run_result draws_zero 0 st_perfect = RunCompleted"
    by code_simp+
  have v: "run_N st_perfect = 5" "run_key_start draws_zero 0 st_perfect = 20"
    "key_bits draws_zero 20 (max (2 * 5) (length (l_keepIndices (run_locals draws_zero 0 st_perfect)))) =
       ''0000000000''"
    by code_simp+
  from key_is_fresh_draws[OF h(1) disjI1[OF h(2)]] h v show ?thesis by simp
qed

end
